theory Spec2Isabelle
  imports Complex_Main
begin

section \<open>Strings, bytes and Python's sequence operations\<close>

text \<open>
  A Python \<open>str\<close> is modelled as a \<^typ>\<open>string\<close>: a list of characters in which a
  \<^typ>\<open>char\<close> stands for the code point of the same number (U+0000 to U+00FF), and
  \<^const>\<open>length\<close> counts code points as Python's \<open>len\<close> does. Bytes are natural
  numbers below 256. The encoders below follow Python on this range of code points.
\<close>

definition utf8_char :: "char \<Rightarrow> nat list" where
  "utf8_char c =
     (let n = (of_char c :: nat)
      in if n < 128 then [n] else [192 + n div 64, 128 + n mod 64])"

definition utf8_encode :: "string \<Rightarrow> nat list" where
  \<comment> \<open>\<open>s.encode('utf-8')\<close>\<close>
  "utf8_encode s = concat (map utf8_char s)"

fun utf8_decode_ignore :: "nat list \<Rightarrow> string" where
  \<comment> \<open>\<open>bs.decode('utf-8', errors='ignore')\<close>: a byte that does not start a complete
      sequence is dropped. Lead bytes above 0xC3 encode code points outside the modelled
      range; they never occur in a prefix of \<^const>\<open>utf8_encode\<close> of a modelled string.\<close>
  "utf8_decode_ignore [] = []"
| "utf8_decode_ignore [b] = (if b < 128 then [char_of b] else [])"
| "utf8_decode_ignore (b # c # cs) =
     (if b < 128 then char_of b # utf8_decode_ignore (c # cs)
      else if (b = 194 \<or> b = 195) \<and> 128 \<le> c \<and> c < 192
        then char_of ((b - 192) * 64 + (c - 128)) # utf8_decode_ignore cs
      else utf8_decode_ignore (c # cs))"

definition slice_to :: "'a list \<Rightarrow> int \<Rightarrow> 'a list" where
  \<comment> \<open>\<open>xs[:n]\<close>; a negative bound counts from the end\<close>
  "slice_to xs n =
     (if n < 0 then take (nat (int (length xs) + n)) xs else take (nat n) xs)"

subsection \<open>\<open>json.dumps\<close> on a flat dictionary of strings and booleans\<close>

datatype mvalue = MStr string | MBool bool

type_synonym metadata = "(string \<times> mvalue) list"

definition dict_set :: "('k \<times> 'v) list \<Rightarrow> 'k \<Rightarrow> 'v \<Rightarrow> ('k \<times> 'v) list" where
  \<comment> \<open>\<open>d[k] = v\<close> on a dictionary kept in insertion order\<close>
  "dict_set d k v =
     (if k \<in> fst ` set d then map (\<lambda>(k', v'). if k' = k then (k', v) else (k', v')) d
      else d @ [(k, v)])"

definition hexdigit :: "nat \<Rightarrow> char" where
  "hexdigit n = ''0123456789abcdef'' ! (n mod 16)"

definition json_escape_char :: "char \<Rightarrow> string" where
  \<comment> \<open>\<open>ensure_ascii=True\<close>: printable ASCII stays, the rest is escaped\<close>
  "json_escape_char c =
     (let n = (of_char c :: nat)
      in if c = CHR 0x22 then [CHR 0x5C, CHR 0x22]
         else if c = CHR 0x5C then [CHR 0x5C, CHR 0x5C]
         else if c = CHR 0x0A then [CHR 0x5C, CHR ''n'']
         else if c = CHR 0x0D then [CHR 0x5C, CHR ''r'']
         else if c = CHR 0x09 then [CHR 0x5C, CHR ''t'']
         else if c = CHR 0x08 then [CHR 0x5C, CHR ''b'']
         else if c = CHR 0x0C then [CHR 0x5C, CHR ''f'']
         else if n < 32 \<or> 126 < n
           then [CHR 0x5C, CHR ''u'', CHR ''0'', CHR ''0'', hexdigit (n div 16), hexdigit n]
         else [c])"

definition json_string :: "string \<Rightarrow> string" where
  "json_string s = CHR 0x22 # concat (map json_escape_char s) @ [CHR 0x22]"

fun json_value :: "mvalue \<Rightarrow> string" where
  "json_value (MStr s) = json_string s"
| "json_value (MBool b) = (if b then ''true'' else ''false'')"

definition json_item :: "string \<times> mvalue \<Rightarrow> string" where
  "json_item kv = json_string (fst kv) @ '': '' @ json_value (snd kv)"

fun join :: "string \<Rightarrow> string list \<Rightarrow> string" where
  "join sep [] = []"
| "join sep [x] = x"
| "join sep (x # y # ys) = x @ sep @ join sep (y # ys)"

definition json_dumps :: "metadata \<Rightarrow> string" where
  "json_dumps d = ''{'' @ join '', '' (map json_item d) @ ''}''"

section \<open>Vector Packager (\<open>pinecone/index_manager.py\<close>)\<close>

text \<open>
  A chunk is a dictionary; the keys the pipeline reads are fields that may be absent, and
  every other key sits in the record's extension, so that copying a chunk keeps it.
\<close>

record 'f chunk =
  chunk_text :: "string option"
  source_type :: "string option"
  file_path :: "string option"
  source_url :: "string option"
  url :: "string option"
  chunk_metadata :: "(string \<times> string) list option"
  embedding :: "'f list option"

record 'f vector =
  vector_id :: string
  vector_values :: "'f list"
  vector_metadata :: metadata

definition MAX_METADATA_SIZE :: int where
  "MAX_METADATA_SIZE = 40 * 1024"

definition generate_vector_id :: "string \<Rightarrow> string \<Rightarrow> string" where
  \<comment> \<open>the second argument is the value \<open>str(uuid.uuid4())\<close> drawn by this call\<close>
  "generate_vector_id prefix unique_id =
     (if prefix \<noteq> [] then prefix @ ''-'' @ unique_id else unique_id)"

definition base_metadata :: "('f, 'm) chunk_scheme \<Rightarrow> metadata" where
  \<comment> \<open>the metadata dictionary before the text is added\<close>
  "base_metadata chunk =
     (let metadata = [(''source_type'',
            MStr (case source_type chunk of None \<Rightarrow> ''unknown'' | Some s \<Rightarrow> s))]
      in if source_type chunk = Some ''repository'' \<and> file_path chunk \<noteq> None
           then dict_set metadata ''file_path'' (MStr (the (file_path chunk)))
         else if source_type chunk = Some ''firecrawl'' \<and> source_url chunk \<noteq> None
           then dict_set metadata ''source_url'' (MStr (the (source_url chunk)))
         else metadata)"

definition available_space :: "metadata \<Rightarrow> int" where
  "available_space metadata =
     MAX_METADATA_SIZE - int (length (utf8_encode (json_dumps metadata))) - 10"

definition prepare_vector :: "string \<Rightarrow> ('f, 'm) chunk_scheme \<Rightarrow> 'f vector" where
  \<comment> \<open>the body of the loop of \<open>prepare_vectors_for_upsert\<close>\<close>
  "prepare_vector unique_id chunk =
     (let embedding = (case embedding chunk of None \<Rightarrow> [] | Some e \<Rightarrow> e);
          metadata = base_metadata chunk;
          text = (case chunk_text chunk of None \<Rightarrow> [] | Some t \<Rightarrow> t);
          available = available_space metadata;
          metadata =
            (if int (length (utf8_encode text)) > available
             then dict_set
                    (dict_set metadata ''text''
                       (MStr (utf8_decode_ignore (slice_to (utf8_encode text) available))))
                    ''truncated'' (MBool True)
             else dict_set metadata ''text'' (MStr text));
          vector_id =
            generate_vector_id (case source_type chunk of None \<Rightarrow> [] | Some s \<Rightarrow> s)
              unique_id
      in \<lparr>vector_id = vector_id, vector_values = embedding, vector_metadata = metadata\<rparr>)"

fun prepare_loop :: "(nat \<Rightarrow> string) \<Rightarrow> nat \<Rightarrow> ('f, 'm) chunk_scheme list \<Rightarrow> 'f vector list" where
  "prepare_loop uuid4 k [] = []"
| "prepare_loop uuid4 k (chunk # chunks) =
     prepare_vector (uuid4 k) chunk # prepare_loop uuid4 (Suc k) chunks"

definition prepare_vectors_for_upsert ::
  "(nat \<Rightarrow> string) \<Rightarrow> ('f, 'm) chunk_scheme list \<Rightarrow> 'f vector list" where
  \<comment> \<open>\<open>uuid4 k\<close> is the identifier drawn for the \<open>k\<close>-th chunk\<close>
  "prepare_vectors_for_upsert uuid4 chunks = prepare_loop uuid4 0 chunks"

section \<open>Embedding Dispatcher (\<open>embedding/embedder.py\<close>)\<close>

text \<open>
  The embedding function is a callback that returns a vector or raises: an
  \<open>EmbeddingError\<close> of its own, or any other exception. Every failure of
  \<open>embed_chunks\<close> is an \<open>EmbeddingError\<close>; the constructors keep apart the three
  places that raise it.
\<close>

datatype callback_exn = RaisedEmbeddingError string | RaisedException string

datatype embedding_error =
    DimensionMismatch int nat  \<comment> \<open>expected, got\<close>
  | Reraised string  \<comment> \<open>the callback's own \<open>EmbeddingError\<close>\<close>
  | Unexpected nat string  \<comment> \<open>chunk index and message of any other exception\<close>

definition text_of :: "('f, 'm) chunk_scheme \<Rightarrow> string" where
  \<comment> \<open>\<open>chunk.get("text", "")\<close>\<close>
  "text_of chunk = (case chunk_text chunk of None \<Rightarrow> [] | Some t \<Rightarrow> t)"

fun embed_loop ::
  "(string \<Rightarrow> callback_exn + 'f list) \<Rightarrow> int \<Rightarrow> nat \<Rightarrow> ('f, 'm) chunk_scheme list
     \<Rightarrow> embedding_error + ('f, 'm) chunk_scheme list" where
  "embed_loop embedding_function dimension i [] = Inr []"
| "embed_loop embedding_function dimension i (chunk # chunks) =
     (let text = text_of chunk
      in if text = [] then embed_loop embedding_function dimension (Suc i) chunks
         else case embedding_function text of
                Inl (RaisedEmbeddingError m) \<Rightarrow> Inl (Reraised m)
              | Inl (RaisedException m) \<Rightarrow> Inl (Unexpected i m)
              | Inr v \<Rightarrow>
                  if int (length v) \<noteq> dimension
                  then Inl (DimensionMismatch dimension (length v))
                  else (case embed_loop embedding_function dimension (Suc i) chunks of
                          Inl e \<Rightarrow> Inl e
                        | Inr embedded_chunks \<Rightarrow>
                            Inr (chunk\<lparr>embedding := Some v\<rparr> # embedded_chunks)))"

definition embed_chunks ::
  "('f, 'm) chunk_scheme list \<Rightarrow> (string \<Rightarrow> callback_exn + 'f list) \<Rightarrow> int
     \<Rightarrow> embedding_error + ('f, 'm) chunk_scheme list" where
  "embed_chunks chunks embedding_function dimension =
     embed_loop embedding_function dimension 0 chunks"

definition create_mock_embedding_function :: "string \<Rightarrow> callback_exn + real list" where
  "create_mock_embedding_function text = Inr (replicate 384 0)"

section \<open>Web content chunks (\<open>firecrawl/crawler.py\<close>)\<close>

datatype content = ContentStr string | ContentMarkdown string

record search_result =
  result_url :: "string option"
  result_title :: "string option"
  result_content :: "content option"
  result_source_type :: "string option"

fun content_text :: "content option \<Rightarrow> string" where
  "content_text None = []"
| "content_text (Some (ContentStr s)) = s"
| "content_text (Some (ContentMarkdown s)) = s"

fun process_firecrawl_results :: "search_result list \<Rightarrow> 'f chunk list" where
  "process_firecrawl_results [] = []"
| "process_firecrawl_results (result # results) =
     (let url = (case result_url result of None \<Rightarrow> [] | Some u \<Rightarrow> u);
          title = (case result_title result of None \<Rightarrow> [] | Some t \<Rightarrow> t);
          content = content_text (result_content result);
          source_type = (case result_source_type result of None \<Rightarrow> ''web'' | Some s \<Rightarrow> s)
      in if content = [] then process_firecrawl_results results
         else \<lparr>chunk_text = Some content, source_type = Some source_type, file_path = None,
               source_url = None, url = Some url,
               chunk_metadata = Some [(''url'', url), (''title'', title),
                                      (''source_type'', source_type)],
               embedding = None\<rparr> # process_firecrawl_results results)"

section \<open>Content Chunker (\<open>firecrawl/crawler.py\<close>)\<close>

definition isspace :: "char \<Rightarrow> bool" where
  \<comment> \<open>the code points below U+0100 that \<open>str.isspace\<close> accepts\<close>
  "isspace c =
     (let n = (of_char c :: nat)
      in (9 \<le> n \<and> n \<le> 13) \<or> (28 \<le> n \<and> n \<le> 32) \<or> n = 133 \<or> n = 160)"

definition strip :: "string \<Rightarrow> string" where
  \<comment> \<open>\<open>s.strip()\<close>\<close>
  "strip s = rev (dropWhile isspace (rev (dropWhile isspace s)))"

definition norm_index :: "int \<Rightarrow> int \<Rightarrow> nat" where
  \<comment> \<open>how a slice bound \<open>i\<close> is read on a sequence of length \<open>n\<close>: a negative bound
      counts from the end, and the result is clamped to \<open>0..n\<close>\<close>
  "norm_index n i = (if i < 0 then nat (max 0 (i + n)) else nat (min i n))"

definition slice :: "'a list \<Rightarrow> int \<Rightarrow> int \<Rightarrow> 'a list" where
  \<comment> \<open>\<open>xs[start:stop]\<close>\<close>
  "slice xs start stop =
     (let n = int (length xs); s = norm_index n start; e = norm_index n stop
      in take (e - s) (drop s xs))"

definition rfind_space :: "string \<Rightarrow> int \<Rightarrow> int \<Rightarrow> int" where
  \<comment> \<open>\<open>content.rfind(" ", start, stop)\<close>: the last index of a space in the window, or -1\<close>
  "rfind_space content start stop =
     (let n = int (length content); s = norm_index n start; e = norm_index n stop
      in case filter (\<lambda>i. content ! i = CHR '' '') (rev [s..<e]) of
           [] \<Rightarrow> - 1
         | i # _ \<Rightarrow> int i)"

text \<open>
  The \<open>while\<close> loop of \<open>chunk_firecrawl_content\<close>, on the state \<open>(start, chunks)\<close>. The
  loop may run forever, which is the value \<^const>\<open>None\<close>. The positions \<open>end0\<close> and
  \<open>end1\<close> are the source's \<open>end\<close> before and after its adjustment.
\<close>

partial_function (option) chunk_loop ::
  "string \<Rightarrow> int \<Rightarrow> int \<Rightarrow> int \<Rightarrow> string list \<Rightarrow> string list option" where
  "chunk_loop content max_chunk_size overlap start chunks =
     (if start < int (length content) then
        (let end0 = start + max_chunk_size;
             end1 = (if end0 < int (length content)
                     then (let last_space = rfind_space content start end0
                           in if last_space \<noteq> - 1 then last_space else end0)
                     else int (length content));
             chunk = strip (slice content start end1);
             chunks' = (if chunk \<noteq> [] then chunks @ [chunk] else chunks)
         in chunk_loop content max_chunk_size overlap (end1 - overlap) chunks')
      else Some chunks)"

definition chunk_firecrawl_content :: "string \<Rightarrow> int \<Rightarrow> int \<Rightarrow> string list option" where
  "chunk_firecrawl_content content max_chunk_size overlap =
     (if int (length content) \<le> max_chunk_size then Some [content]
      else chunk_loop content max_chunk_size overlap 0 [])"



section \<open>Batched Upsert Engine (\<open>pinecone/index_manager.py\<close>)\<close>

text \<open>
  The index is a state \<open>'s\<close> with an operation \<open>upsert\<close> that takes the state, a batch
  and the namespace and returns the new state with either the message of the exception it
  raised or its response. A response is a mapping that may hold \<open>upserted_count\<close>, an
  object with the attribute \<open>upserted_count\<close>, or anything else.
\<close>

datatype upsert_response = RestResponse "int option" | GrpcResponse int | OtherResponse

datatype pinecone_error = PineconeError string

type_synonym ('s, 'v) upsert = "'s \<Rightarrow> 'v list \<Rightarrow> string \<Rightarrow> (string + upsert_response) \<times> 's"

fun batch_upserted :: "upsert_response \<Rightarrow> 'v list \<Rightarrow> int" where
  "batch_upserted (RestResponse (Some n)) batch = n"
| "batch_upserted (RestResponse None) batch = int (length batch)"
| "batch_upserted (GrpcResponse n) batch = n"
| "batch_upserted OtherResponse batch = int (length batch)"

text \<open>
  The loop \<open>for i in range(0, len(vectors), batch_size)\<close> for a positive step, on the
  state \<open>(i, total_upserted)\<close> and the state of the index.
\<close>

function upsert_loop ::
  "('s, 'v) upsert \<Rightarrow> string \<Rightarrow> 'v list \<Rightarrow> int \<Rightarrow> nat \<Rightarrow> int \<Rightarrow> 's
     \<Rightarrow> (pinecone_error + int) \<times> 's" where
  "upsert_loop upsert namespace vectors batch_size i total_upserted st =
     (if 0 < batch_size \<and> i < length vectors then
        (let batch = take (nat batch_size) (drop i vectors)
         in case upsert st batch namespace of
              (Inl e, st') \<Rightarrow> (Inl (PineconeError e), st')
            | (Inr upsert_response, st') \<Rightarrow>
                upsert_loop upsert namespace vectors batch_size (i + nat batch_size)
                  (total_upserted + batch_upserted upsert_response batch) st')
      else (Inr total_upserted, st))"
  by pat_completeness auto
termination
  by (relation "measure (\<lambda>(upsert, namespace, vectors, batch_size, i, total, st).
        length vectors - i)") auto

declare upsert_loop.simps [simp del]

definition upsert_vectors ::
  "('s, 'v) upsert \<Rightarrow> 's \<Rightarrow> 'v list \<Rightarrow> string \<Rightarrow> int \<Rightarrow> (pinecone_error + int) \<times> 's" where
  \<comment> \<open>a step of zero makes \<open>range\<close> raise, a negative step makes it empty\<close>
  "upsert_vectors upsert st vectors namespace batch_size =
     (if batch_size = 0 then (Inl (PineconeError ''range() arg 3 must not be zero''), st)
      else upsert_loop upsert namespace vectors batch_size 0 0 st)"

definition MockIndex_upsert ::
  "(string \<times> string \<rightharpoonup> 'f vector, 'f vector) upsert" where
  \<comment> \<open>\<open>MockIndex.upsert\<close>: the state maps a namespace and an id to the stored vector\<close>
  "MockIndex_upsert namespaces vectors namespace =
     (Inr (RestResponse (Some (int (length vectors)))),
      fold (\<lambda>v m. if vector_id v \<noteq> [] then m((namespace, vector_id v) \<mapsto> v) else m)
        vectors namespaces)"

text \<open>
  To observe the calls an index receives, it is wrapped in an index that records them, as
  the call list of a mock does: the state is paired with the log of the calls, each with
  its batch, its namespace and its outcome, in the order they were made.
\<close>

record 'v upsert_call =
  call_batch :: "'v list"
  call_namespace :: string
  call_outcome :: "string + upsert_response"

definition recording :: "('s, 'v) upsert \<Rightarrow> ('s \<times> 'v upsert_call list, 'v) upsert" where
  "recording upsert st_log batch namespace =
     (case upsert (fst st_log) batch namespace of
        (outcome, st') \<Rightarrow>
          (outcome,
           (st', snd st_log @
              [\<lparr>call_batch = batch, call_namespace = namespace, call_outcome = outcome\<rparr>])))"

definition returned :: "'v upsert_call \<Rightarrow> bool" where
  \<comment> \<open>the call did not raise\<close>
  "returned c = (case call_outcome c of Inl e \<Rightarrow> False | Inr upsert_response \<Rightarrow> True)"

definition acknowledged :: "'v upsert_call \<Rightarrow> int" where
  \<comment> \<open>the count that \<open>upsert_vectors\<close> reads from the response of a call that returned\<close>
  "acknowledged c =
     (case call_outcome c of Inl e \<Rightarrow> 0
      | Inr upsert_response \<Rightarrow> batch_upserted upsert_response (call_batch c))"

definition upsert_calls ::
  "('s, 'v) upsert \<Rightarrow> 's \<Rightarrow> 'v list \<Rightarrow> string \<Rightarrow> int \<Rightarrow> 'v upsert_call list" where
  \<comment> \<open>the calls that \<open>upsert_vectors\<close> makes on the index\<close>
  "upsert_calls upsert st vectors namespace batch_size =
     snd (snd (upsert_vectors (recording upsert) (st, []) vectors namespace batch_size))"

definition contiguous_batches :: "'v list \<Rightarrow> nat \<Rightarrow> 'v list list" where
  \<comment> \<open>Specification: the slices of \<open>b\<close> records that start at the positions
      \<open>0, b, 2 * b, ...\<close> below the length of the list\<close>
  "contiguous_batches vectors b =
     map (\<lambda>j. take b (drop (j * b) vectors)) [0..<(length vectors + b - 1) div b]"

definition unavailable_index :: "(unit, 'v) upsert" where
  \<comment> \<open>an index whose every \<open>upsert\<close> raises\<close>
  "unavailable_index st vectors namespace = (Inl ''service unavailable'', st)"

section \<open>Chunk Extractor (\<open>repomix/processor.py\<close>)\<close>

text \<open>
  What the function meets outside itself is given to the model as values: the outcome of
  opening and reading the file, the outcome of \<open>ET.parse\<close> followed by
  \<open>findall(".//file")\<close> (the \<open>file\<close> elements in document order, each with its \<open>path\<close>
  attribute and its text, either of which may be missing), and the result of
  \<open>re.findall\<close> with the file-section pattern on the content. An exception is a
  \<open>FileNotFoundError\<close>, the parser's \<open>ParseError\<close>, or any other one, with its message.
\<close>

datatype exn = FileNotFoundError string | ParseError string | OtherException string

fun str_of_exn :: "exn \<Rightarrow> string" where
  "str_of_exn (FileNotFoundError m) = m"
| "str_of_exn (ParseError m) = m"
| "str_of_exn (OtherException m) = m"

record file_elem =
  elem_path :: "string option"
  elem_text :: "string option"

definition starts_with :: "string \<Rightarrow> string \<Rightarrow> bool" where
  "starts_with sub s = (take (length sub) s = sub)"

fun contains :: "string \<Rightarrow> string \<Rightarrow> bool" where
  \<comment> \<open>\<open>sub in s\<close>\<close>
  "contains sub [] = (sub = [])"
| "contains sub (c # cs) = (starts_with sub (c # cs) \<or> contains sub cs)"

fun split_from :: "string \<Rightarrow> string \<Rightarrow> string \<Rightarrow> string list" where
  \<comment> \<open>\<open>s.split(sep)\<close> for a non-empty separator; the second argument is the piece read so
      far, reversed\<close>
  "split_from sep acc [] = [rev acc]"
| "split_from sep acc (c # cs) =
     (if starts_with sep (c # cs)
      then rev acc # split_from sep [] (drop (length sep - 1) cs)
      else split_from sep (c # acc) cs)"

definition split :: "string \<Rightarrow> string \<Rightarrow> string list" where
  "split s sep = split_from sep [] s"

definition repository_chunk :: "string \<Rightarrow> string \<Rightarrow> 'f chunk" where
  \<comment> \<open>\<open>{"text": text, "source_type": "repository", "file_path": path}\<close>\<close>
  "repository_chunk text path =
     \<lparr>chunk_text = Some text, source_type = Some ''repository'', file_path = Some path,
      source_url = None, url = None, chunk_metadata = None, embedding = None\<rparr>"

definition error_chunk :: "exn \<Rightarrow> 'f chunk" where
  "error_chunk e =
     \<lparr>chunk_text = Some (''Error parsing Repomix output: '' @ str_of_exn e),
      source_type = Some ''error'', file_path = Some ''error.txt'',
      source_url = None, url = None, chunk_metadata = None, embedding = None\<rparr>"

fun xml_chunks :: "file_elem list \<Rightarrow> 'f chunk list" where
  \<comment> \<open>the loop over \<open>root.findall(".//file")\<close>\<close>
  "xml_chunks [] = []"
| "xml_chunks (file_elem # rest) =
     (let file_path = (case elem_path file_elem of None \<Rightarrow> [] | Some p \<Rightarrow> p)
      in if file_path = [] then xml_chunks rest
         else repository_chunk (case elem_text file_elem of None \<Rightarrow> [] | Some t \<Rightarrow> t)
                file_path # xml_chunks rest)"

definition fallback_chunks :: "(string \<times> string) list \<Rightarrow> string \<Rightarrow> 'f chunk list" where
  \<comment> \<open>the fallback extraction; \<open>file_sections\<close> is what \<open>re.findall\<close> returned\<close>
  "fallback_chunks file_sections content =
     (let summary_match =
            (if contains ''<directory_structure>'' content
             then hd (split content ''<directory_structure>'') else content);
          chunks = repository_chunk (strip summary_match) ''repository_summary.txt'' #
                   map (\<lambda>(file_path, file_content). repository_chunk (strip file_content) file_path)
                     file_sections
      in if length chunks = 1 \<and> contains ''<directory_structure>'' content
         then chunks @ [repository_chunk
                          (strip (split content ''<directory_structure>'' ! 1))
                          ''directory_structure.txt'']
         else chunks)"

definition parse_repomix_output ::
  "exn + string \<Rightarrow> exn + file_elem list \<Rightarrow> (string \<Rightarrow> (string \<times> string) list)
     \<Rightarrow> exn + 'f chunk list" where
  "parse_repomix_output read_file et_parse findall =
     (case read_file of
        Inl (FileNotFoundError m) \<Rightarrow> Inl (FileNotFoundError m)
      | Inl e \<Rightarrow> Inr [error_chunk e]
      | Inr content \<Rightarrow>
          (case et_parse of
             Inr file_elems \<Rightarrow>
               (let chunks = xml_chunks file_elems
                in if chunks \<noteq> [] then Inr chunks
                   else Inr (fallback_chunks (findall content) content))
           | Inl (ParseError m) \<Rightarrow> Inr (fallback_chunks (findall content) content)
           | Inl (FileNotFoundError m) \<Rightarrow> Inl (FileNotFoundError m)
           | Inl e \<Rightarrow> Inr [error_chunk e]))"

section \<open>Embedding strategies (\<open>embedding/embedder.py\<close>)\<close>

text \<open>
  The hashing-based sparse model. Python's \<open>hash\<close> on strings differs from process to
  process and \<open>str.lower\<close> is a table of the Unicode database: both are parameters. The
  floating-point numbers of the vector are modelled as real numbers, so that the norm and
  the division are exact.
\<close>

fun words_from :: "string \<Rightarrow> string \<Rightarrow> string list" where
  \<comment> \<open>\<open>s.split()\<close>: the maximal runs of characters that are not whitespace; the first
      argument is the word read so far, reversed\<close>
  "words_from acc [] = (if acc = [] then [] else [rev acc])"
| "words_from acc (c # cs) =
     (if isspace c then (if acc = [] then words_from [] cs else rev acc # words_from [] cs)
      else words_from (c # acc) cs)"

definition split_whitespace :: "string \<Rightarrow> string list" where
  "split_whitespace s = words_from [] s"

definition linalg_norm :: "real list \<Rightarrow> real" where
  \<comment> \<open>\<open>np.linalg.norm\<close> of a vector\<close>
  "linalg_norm v = sqrt (sum_list (map (\<lambda>x. x * x) v))"

definition create_pinecone_sparse_embedding_function ::
  "(string \<Rightarrow> int) \<Rightarrow> (string \<Rightarrow> string) \<Rightarrow> string option \<Rightarrow> string \<Rightarrow> real list" where
  \<comment> \<open>the function \<open>embed_text\<close> that the source returns, applied to a text\<close>
  "create_pinecone_sparse_embedding_function hash lower api_key text =
     (if text = [] \<or> strip text = [] then replicate 384 0
      else
        (let words = split_whitespace (lower text);
             embedding = fold (\<lambda>word embedding. embedding[nat (hash word mod 384) := 1])
                           words (replicate 384 0);
             norm = linalg_norm embedding
         in if norm > 0 then map (\<lambda>x. x / norm) embedding else embedding))"

text \<open>
  The dispatcher reads the model name from the configuration. The dimension that the
  configuration gives for the index is a field of the same configuration; no strategy
  reads it. The remote model is a parameter.
\<close>

record config =
  embedding_model :: "string option"
  pinecone_dimension :: int

datatype value_error = ValueError string

definition get_embedding_function ::
  "(string \<Rightarrow> int) \<Rightarrow> (string \<Rightarrow> string) \<Rightarrow> (string option \<Rightarrow> string \<Rightarrow> callback_exn + real list)
     \<Rightarrow> config \<Rightarrow> string option
     \<Rightarrow> value_error + (string \<Rightarrow> callback_exn + real list)" where
  "get_embedding_function hash lower create_e5_embedding_function config api_key =
     (let model_name = (case embedding_model config of None \<Rightarrow> [] | Some m \<Rightarrow> m)
      in if model_name = [] then Inl (ValueError ''Embedding model not specified in configuration'')
         else if model_name = ''multilingual-e5-large''
           then Inr (create_e5_embedding_function api_key)
         else if model_name = ''llama-text-embed-v2'' then Inr (\<lambda>text. Inr [])
         else if model_name = ''pinecone-sparse-english-v0''
           then Inr (\<lambda>text. Inr (create_pinecone_sparse_embedding_function hash lower api_key text))
         else if model_name = ''mock_embedding_model'' then Inr create_mock_embedding_function
         else Inl (ValueError (''Unsupported embedding model: '' @ model_name)))"

section \<open>Ingestion Validator (\<open>validation/validation.py\<close>)\<close>

text \<open>
  The part of \<open>validate_repository_ingestion\<close> that follows the extraction of the
  candidate \<open>file_paths\<close>. The index is a state \<open>'s\<close> with an operation \<open>query\<close> that takes
  the state, the namespace, \<open>top_k\<close> and the probe vector and returns the new state with
  either the message of the exception it raised or its response: the \<open>matches\<close> of the
  response, if it has that attribute. A match may have metadata, a dictionary whose values
  are strings or something else, and a score. \<open>random.sample\<close> is the parameter \<open>sample\<close>.
\<close>

datatype mfield = StrValue string | OtherValue

record match =
  match_metadata :: "(string \<times> mfield) list option"
  match_score :: "real option"

type_synonym 's query =
  "'s \<Rightarrow> string \<Rightarrow> nat \<Rightarrow> real list \<Rightarrow> (string + match list option) \<times> 's"

record validation_result =
  result_file_path :: string
  found :: bool
  match_field :: "string option"
  match_value :: "string option"
  score :: "real option"
  error :: "string option"

record validation_report =
  success :: bool
  report_error :: "string option"
  success_rate :: real
  found_count :: nat
  total_count :: nat
  results :: "validation_result list"

fun first_matching_field :: "string \<Rightarrow> (string \<times> mfield) list \<Rightarrow> (string \<times> string) option" where
  \<comment> \<open>the loop over \<open>metadata.items()\<close>\<close>
  "first_matching_field path [] = None"
| "first_matching_field path ((key, StrValue v) # items) =
     (if contains path v \<or> contains v path then Some (key, v)
      else first_matching_field path items)"
| "first_matching_field path ((key, OtherValue) # items) =
     first_matching_field path items"

fun find_match :: "string \<Rightarrow> match list \<Rightarrow> validation_result option" where
  \<comment> \<open>the loop over \<open>matches\<close>: the result it appends, if it finds a match\<close>
  "find_match path [] = None"
| "find_match path (m # matches) =
     (case first_matching_field path
             (case match_metadata m of None \<Rightarrow> [] | Some metadata \<Rightarrow> metadata) of
        Some (key, v) \<Rightarrow>
          Some \<lparr>result_file_path = path, found = True, match_field = Some key,
                match_value = Some v, score = match_score m, error = None\<rparr>
      | None \<Rightarrow> find_match path matches)"

definition not_found :: "string \<Rightarrow> string option \<Rightarrow> validation_result" where
  "not_found path e =
     \<lparr>result_file_path = path, found = False, match_field = None, match_value = None,
      score = None, error = e\<rparr>"

definition validate_path ::
  "'s query \<Rightarrow> string \<Rightarrow> int \<Rightarrow> 's \<Rightarrow> string \<Rightarrow> validation_result \<times> 's" where
  \<comment> \<open>the body of the loop over \<open>sample_paths\<close>: the result appended for one path\<close>
  "validate_path query namespace embedding_dimension st path =
     (let dense_vector = replicate (nat embedding_dimension) (1 / 10)
      in case query st namespace 50 dense_vector of
           (Inl e, st1) \<Rightarrow> (not_found path (Some e), st1)
         | (Inr query_response, st1) \<Rightarrow>
             (case find_match path
                     (case query_response of None \<Rightarrow> [] | Some matches \<Rightarrow> matches) of
                Some r \<Rightarrow> (r, st1)
              | None \<Rightarrow>
                  (let dense_vector =
                         map (\<lambda>i. if i mod 2 = 0 then 2 / 10 else 3 / 10)
                           [0..<nat embedding_dimension]
                   in case query st1 namespace 100 dense_vector of
                        (Inl second_error, st2) \<Rightarrow> (not_found path None, st2)
                      | (Inr query_response, st2) \<Rightarrow>
                          (case find_match path
                                  (case query_response of None \<Rightarrow> []
                                   | Some matches \<Rightarrow> matches) of
                             Some r \<Rightarrow> (r, st2)
                           | None \<Rightarrow> (not_found path None, st2)))))"

fun validate_paths ::
  "'s query \<Rightarrow> string \<Rightarrow> int \<Rightarrow> 's \<Rightarrow> string list \<Rightarrow> validation_result list \<times> 's" where
  "validate_paths query namespace embedding_dimension st [] = ([], st)"
| "validate_paths query namespace embedding_dimension st (path # sample_paths) =
     (case validate_path query namespace embedding_dimension st path of
        (r, st1) \<Rightarrow>
          (case validate_paths query namespace embedding_dimension st1 sample_paths of
             (validation_results, st2) \<Rightarrow> (r # validation_results, st2)))"

definition validate_file_paths ::
  "'s query \<Rightarrow> (string list \<Rightarrow> nat \<Rightarrow> string list) \<Rightarrow> 's \<Rightarrow> string \<Rightarrow> string list \<Rightarrow> int
     \<Rightarrow> validation_report \<times> 's" where
  "validate_file_paths query sample st namespace file_paths embedding_dimension =
     (if file_paths = []
      then (\<lparr>success = False, report_error = Some ''No file paths found in Repomix output'',
             success_rate = 0, found_count = 0, total_count = 0, results = []\<rparr>, st)
      else
        (let sample_size = min 5 (length file_paths);
             sample_paths = sample file_paths sample_size
         in case validate_paths query namespace embedding_dimension st sample_paths of
              (validation_results, st1) \<Rightarrow>
                (let found_count = length (filter found validation_results);
                     success_rate =
                       (if validation_results \<noteq> []
                        then real found_count / real (length validation_results) else 0)
                 in (\<lparr>success = (success_rate \<ge> 6 / 10), report_error = None,
                      success_rate = success_rate, found_count = found_count,
                      total_count = length validation_results,
                      results = validation_results\<rparr>, st1))))"

section \<open>Concrete inputs\<close>

definition long_repository_chunk :: "real chunk" where
  \<comment> \<open>a repository chunk without a path whose text is 50000 times the letter a\<close>
  "long_repository_chunk =
     \<lparr>chunk_text = Some (replicate 50000 CHR ''a''), source_type = Some ''repository'',
      file_path = None, source_url = None, url = None, chunk_metadata = None,
      embedding = Some []\<rparr>"

definition web_search_result :: search_result where
  \<comment> \<open>a result as \<open>search_web_content\<close> builds it\<close>
  "web_search_result =
     \<lparr>result_url = Some ''https://example.com/a'', result_title = Some ''A'',
      result_content = Some (ContentStr ''hello''), result_source_type = Some ''web_search''\<rparr>"

definition web_chunk_with_source_url :: "real chunk" where
  "web_chunk_with_source_url =
     \<lparr>chunk_text = Some ''hello'', source_type = Some ''web_search_mock'',
      file_path = None, source_url = Some ''https://example.com/a'', url = None,
      chunk_metadata = None, embedding = Some [0, 0, 0]\<rparr>"

definition two_chunks :: "real chunk list" where
  "two_chunks =
     [\<lparr>chunk_text = Some ''ab'', source_type = Some ''repository'', file_path = Some ''a.py'',
       source_url = None, url = None, chunk_metadata = None, embedding = None\<rparr>,
      \<lparr>chunk_text = Some [], source_type = Some ''repository'', file_path = Some ''b.py'',
       source_url = None, url = None, chunk_metadata = None, embedding = None\<rparr>]"

definition test_content :: string where
  \<comment> \<open>the long text of \<open>test_chunk_firecrawl_content\<close> in the repository's tests\<close>
  "test_content =
     concat (replicate 10
       ''This is a longer content that needs to be split into multiple chunks. '')"


definition sparse_config :: config where
  \<comment> \<open>the sparse model with the index dimension of the repository's configuration tests\<close>
  "sparse_config =
     \<lparr>embedding_model = Some ''pinecone-sparse-english-v0'', pinecone_dimension = 1536\<rparr>"

definition blank_chunk :: "real chunk" where
  "blank_chunk =
     \<lparr>chunk_text = Some '' '', source_type = Some ''repository'', file_path = Some ''a.py'',
      source_url = None, url = None, chunk_metadata = None, embedding = None\<rparr>"

definition example_vectors :: "real vector list" where
  \<comment> \<open>250 records\<close>
  "example_vectors =
     replicate 250 \<lparr>vector_id = ''v'', vector_values = [0], vector_metadata = []\<rparr>"

definition raising_callback :: "string \<Rightarrow> callback_exn + real list" where
  \<comment> \<open>an embedding function whose provider fails on every text\<close>
  "raising_callback text = Inl (RaisedException ''boom'')"

definition example_paths :: "string list" where
  "example_paths = [''a.py'', ''b.py'', ''c.py'']"

definition example_query :: "nat query" where
  \<comment> \<open>an index that counts its queries, raises on the second one and otherwise returns one
      match, for the file \<open>a.py\<close>\<close>
  "example_query st namespace top_k dense_vector =
     (if st = 1 then (Inl ''timeout'', st + 1)
      else (Inr (Some [\<lparr>match_metadata = Some [(''file_path'', StrValue ''a.py'')],
                         match_score = Some 1\<rparr>]), st + 1))"

section \<open>Verified properties\<close>

subsection \<open>Helper facts on lists and dictionaries\<close>

lemma concat_replicate_single: "concat (replicate n [x]) = replicate n x"
  by (induction n) simp_all

lemma length_concat_replicate: "length (concat (replicate n xs)) = n * length xs"
  by (induction n) simp_all

lemma map_of_map_replace:
  "map_of (map (\<lambda>(k', v'). if k' = k then (k', v) else (k', v')) d) k' =
     (if k' = k then (case map_of d k of None \<Rightarrow> None | Some _ \<Rightarrow> Some v) else map_of d k')"
  by (induction d) auto

lemma map_of_dict_set:
  "map_of (dict_set d k v) k' = (if k' = k then Some v else map_of d k')"
proof (cases "k \<in> fst ` set d")
  case False
  then have "map_of d k = None" by (simp add: map_of_eq_None_iff)
  with False show ?thesis by (auto simp: dict_set_def map_add_def split: option.splits)
next
  case True
  then obtain w where "map_of d k = Some w"
    by (metis map_of_eq_None_iff not_None_eq)
  with True show ?thesis by (simp add: dict_set_def map_of_map_replace)
qed

lemma utf8_decode_replicate_ascii:
  "b < 128 \<Longrightarrow> utf8_decode_ignore (replicate n b) = replicate n (char_of b)"
proof (induction n rule: less_induct)
  case (less n)
  show ?case
  proof (cases n)
    case 0
    then show ?thesis by simp
  next
    case (Suc m)
    show ?thesis
    proof (cases m)
      case 0
      with Suc less.prems show ?thesis by simp
    next
      case (Suc k)
      have "utf8_decode_ignore (replicate (Suc k) b) = replicate (Suc k) (char_of b)"
        using less.IH[of "Suc k"] less.prems \<open>n = Suc m\<close> Suc by simp
      with \<open>n = Suc m\<close> Suc less.prems show ?thesis by simp
    qed
  qed
qed

lemmas json_defs = json_dumps_def json_item_def json_string_def json_escape_char_def
  utf8_encode_def utf8_char_def

subsection \<open>Vector Packager\<close>

lemma prepare_loop_length: "length (prepare_loop uuid4 k chunks) = length chunks"
  by (induction chunks arbitrary: k) simp_all

lemma prepare_vector_values:
  "vector_values (prepare_vector u chunk) =
     (case embedding chunk of None \<Rightarrow> [] | Some e \<Rightarrow> e)"
  by (simp add: prepare_vector_def Let_def)

lemma prepare_loop_values:
  "map vector_values (prepare_loop uuid4 k chunks) =
     map (\<lambda>c. case embedding c of None \<Rightarrow> [] | Some e \<Rightarrow> e) chunks"
  by (induction chunks arbitrary: k) (simp_all add: prepare_vector_values)

text \<open>
  C10. The packager returns one record per embedded chunk, in the order of the input; the
  \<open>values\<close> of each record are the chunk's embedding, unchanged, and a chunk without an
  \<open>embedding\<close> key yields the empty sequence instead of an error.
\<close>

theorem prepare_vectors_one_record_per_chunk:
  "length (prepare_vectors_for_upsert uuid4 chunks) = length chunks \<and>
   map vector_values (prepare_vectors_for_upsert uuid4 chunks) =
     map (\<lambda>c. case embedding c of None \<Rightarrow> [] | Some e \<Rightarrow> e) chunks"
  by (simp add: prepare_vectors_for_upsert_def prepare_loop_length prepare_loop_values)

text \<open>Which keys the metadata of a record carries.\<close>

lemma prepare_vector_source_type:
  "map_of (vector_metadata (prepare_vector u chunk)) ''source_type'' =
     Some (MStr (case source_type chunk of None \<Rightarrow> ''unknown'' | Some s \<Rightarrow> s))"
  by (simp add: prepare_vector_def Let_def map_of_dict_set base_metadata_def)

lemma prepare_vector_text:
  "\<exists>t. map_of (vector_metadata (prepare_vector u chunk)) ''text'' = Some (MStr t)"
  by (simp add: prepare_vector_def Let_def map_of_dict_set)

lemma prepare_vector_file_path:
  "map_of (vector_metadata (prepare_vector u chunk)) ''file_path'' =
     (if source_type chunk = Some ''repository'' \<and> file_path chunk \<noteq> None
      then Some (MStr (the (file_path chunk))) else None)"
  by (simp add: prepare_vector_def Let_def map_of_dict_set base_metadata_def)

lemma prepare_vector_source_url:
  "map_of (vector_metadata (prepare_vector u chunk)) ''source_url'' =
     (if source_type chunk = Some ''firecrawl'' \<and> source_url chunk \<noteq> None
      then Some (MStr (the (source_url chunk))) else None)"
  by (simp add: prepare_vector_def Let_def map_of_dict_set base_metadata_def)

lemma prepare_vector_untruncated:
  "int (length (utf8_encode (text_of chunk))) \<le> available_space (base_metadata chunk) \<Longrightarrow>
   map_of (vector_metadata (prepare_vector u chunk)) ''text'' = Some (MStr (text_of chunk)) \<and>
   map_of (vector_metadata (prepare_vector u chunk)) ''truncated'' = None"
  by (simp add: prepare_vector_def Let_def map_of_dict_set base_metadata_def text_of_def)

lemma prepare_vector_truncated:
  "int (length (utf8_encode (text_of chunk))) > available_space (base_metadata chunk) \<Longrightarrow>
   map_of (vector_metadata (prepare_vector u chunk)) ''truncated'' = Some (MBool True)"
  by (simp add: prepare_vector_def Let_def map_of_dict_set base_metadata_def text_of_def)

text \<open>
  C1. A chunk whose text does not fit the space left by the other metadata is truncated
  and flagged, but the record that results is not within the limit: the space for the text
  is the limit less the other metadata less 10 bytes, while the \<open>text\<close> key costs 12
  bytes and the \<open>truncated\<close> flag 19. For the chunk below the serialized metadata is
  40981 bytes long, 21 bytes above the 40 KiB limit.
\<close>

theorem truncated_record_exceeds_limit:
  "map (\<lambda>v. (int (length (utf8_encode (json_dumps (vector_metadata v)))),
             map_of (vector_metadata v) ''truncated''))
     (prepare_vectors_for_upsert (\<lambda>k. ''0'') [long_repository_chunk]) =
     [(MAX_METADATA_SIZE + 21, Some (MBool True))]"
proof -
  let ?big = "long_repository_chunk"
  have b: "base_metadata ?big = [(''source_type'', MStr ''repository'')]"
    by (simp add: base_metadata_def long_repository_chunk_def)
  have a: "available_space [(''source_type'', MStr ''repository'')] = 40921"
    by (simp add: available_space_def MAX_METADATA_SIZE_def json_defs)
  have t: "chunk_text ?big = Some (replicate 50000 CHR ''a'')"
    by (simp add: long_repository_chunk_def)
  have e: "utf8_encode (replicate 50000 CHR ''a'') = replicate 50000 97"
    by (simp add: utf8_encode_def utf8_char_def concat_replicate_single)
  have c: "char_of (97::nat) = CHR ''a''"
    by code_simp
  have d: "utf8_decode_ignore (slice_to (replicate 50000 97) 40921) = replicate 40921 CHR ''a''"
    by (simp add: slice_to_def utf8_decode_replicate_ascii c)
  have m: "vector_metadata (prepare_vector ''0'' ?big) =
      [(''source_type'', MStr ''repository''), (''text'', MStr (replicate 40921 CHR ''a'')),
       (''truncated'', MBool True)]"
    by (simp add: prepare_vector_def Let_def b a t e d dict_set_def)
  have l: "length (utf8_encode (json_dumps
      [(''source_type'', MStr ''repository''), (''text'', MStr (replicate 40921 CHR ''a'')),
       (''truncated'', MBool True)])) = 40981"
    by (simp add: json_defs length_concat_replicate concat_replicate_single)
  show ?thesis
    by (simp add: prepare_vectors_for_upsert_def m l MAX_METADATA_SIZE_def)
qed

text \<open>
  C8. The packager adds \<open>source_url\<close> only to chunks of source type \<open>firecrawl\<close>. A web
  chunk, of source type \<open>web_search\<close> or \<open>web_search_mock\<close>, gets a record whose metadata
  has the keys \<open>source_type\<close> and \<open>text\<close> only: both the chunk that
  \<open>process_firecrawl_results\<close> builds from a search result (it carries its address under
  \<open>url\<close>) and a chunk that does carry a \<open>source_url\<close>.
\<close>

theorem web_chunk_record_has_no_source_url:
  "map (\<lambda>v. map fst (vector_metadata v))
     (prepare_vectors_for_upsert (\<lambda>k. ''0'')
        (case embed_chunks (process_firecrawl_results [web_search_result])
                create_mock_embedding_function 384 of
           Inr chunks \<Rightarrow> chunks @ [web_chunk_with_source_url]
         | Inl e \<Rightarrow> [])) =
   [[''source_type'', ''text''], [''source_type'', ''text'']]"
proof -
  have p: "process_firecrawl_results [web_search_result] =
      [\<lparr>chunk_text = Some ''hello'', source_type = Some ''web_search'', file_path = None,
        source_url = None, url = Some ''https://example.com/a'',
        chunk_metadata = Some [(''url'', ''https://example.com/a''), (''title'', ''A''),
                               (''source_type'', ''web_search'')],
        embedding = None :: real list option\<rparr>]"
    by (simp add: web_search_result_def Let_def)
  have k: "map fst (vector_metadata (prepare_vector u c)) = [''source_type'', ''text'']"
    if "source_type c = Some ''web_search'' \<or> source_type c = Some ''web_search_mock''"
       "chunk_text c = Some ''hello''" for u and c :: "real chunk"
    using that
    by (auto simp add: prepare_vector_def Let_def base_metadata_def available_space_def
        MAX_METADATA_SIZE_def json_defs dict_set_def)
  show ?thesis
    unfolding p
    by (simp add: embed_chunks_def text_of_def create_mock_embedding_function_def
        prepare_vectors_for_upsert_def k web_chunk_with_source_url_def)
qed

subsection \<open>Embedding Dispatcher\<close>

lemma embed_loop_outcomes:
  "(\<exists>vs. list_all2 (\<lambda>c v. f (text_of c) = Inr v \<and> int (length v) = d)
           (filter (\<lambda>c. text_of c \<noteq> []) chunks) vs \<and>
         embed_loop f d i chunks =
           Inr (map2 (\<lambda>c v. c\<lparr>embedding := Some v\<rparr>)
                  (filter (\<lambda>c. text_of c \<noteq> []) chunks) vs))
   \<or> (\<exists>pre c post. chunks = pre @ c # post \<and>
         list_all (\<lambda>p. text_of p = [] \<or> (\<exists>v. f (text_of p) = Inr v \<and> int (length v) = d)) pre \<and>
         text_of c \<noteq> [] \<and>
         ((\<exists>v. f (text_of c) = Inr v \<and> int (length v) \<noteq> d \<and>
               embed_loop f d i chunks = Inl (DimensionMismatch d (length v)))
          \<or> (\<exists>m. f (text_of c) = Inl (RaisedEmbeddingError m) \<and>
               embed_loop f d i chunks = Inl (Reraised m))
          \<or> (\<exists>m. f (text_of c) = Inl (RaisedException m) \<and>
               embed_loop f d i chunks = Inl (Unexpected (i + length pre) m))))"
  (is "?ok i chunks \<or> ?bad i chunks")
proof (induction chunks arbitrary: i)
  case Nil
  then show ?case by simp
next
  case (Cons c cs)
  let ?ne = "\<lambda>c. text_of c \<noteq> []"
  let ?good = "\<lambda>p. text_of p = [] \<or> (\<exists>v. f (text_of p) = Inr v \<and> int (length v) = d)"
  have first: "?bad i (c # cs)"
    if "?ne c" and "(\<exists>v. f (text_of c) = Inr v \<and> int (length v) \<noteq> d \<and>
               embed_loop f d i (c # cs) = Inl (DimensionMismatch d (length v)))
          \<or> (\<exists>m. f (text_of c) = Inl (RaisedEmbeddingError m) \<and>
               embed_loop f d i (c # cs) = Inl (Reraised m))
          \<or> (\<exists>m. f (text_of c) = Inl (RaisedException m) \<and>
               embed_loop f d i (c # cs) = Inl (Unexpected (i + length ([]::'b list)) m))"
    using that
    by (intro exI[of _ "[]"] exI[of _ c] exI[of _ cs]) simp
  have later: "?bad i (c # cs)"
    if g: "?good c" and same: "\<And>e. embed_loop f d (Suc i) cs = Inl e \<Longrightarrow> embed_loop f d i (c # cs) = Inl e"
      and b: "?bad (Suc i) cs"
  proof -
    from b obtain pre c' post where cs: "cs = pre @ c' # post" and pre: "list_all ?good pre"
      and ne: "?ne c'"
      and out: "(\<exists>v. f (text_of c') = Inr v \<and> int (length v) \<noteq> d \<and>
               embed_loop f d (Suc i) cs = Inl (DimensionMismatch d (length v)))
          \<or> (\<exists>m. f (text_of c') = Inl (RaisedEmbeddingError m) \<and>
               embed_loop f d (Suc i) cs = Inl (Reraised m))
          \<or> (\<exists>m. f (text_of c') = Inl (RaisedException m) \<and>
               embed_loop f d (Suc i) cs = Inl (Unexpected (Suc i + length pre) m))"
      by blast
    from out same have out': "(\<exists>v. f (text_of c') = Inr v \<and> int (length v) \<noteq> d \<and>
               embed_loop f d i (c # cs) = Inl (DimensionMismatch d (length v)))
          \<or> (\<exists>m. f (text_of c') = Inl (RaisedEmbeddingError m) \<and>
               embed_loop f d i (c # cs) = Inl (Reraised m))
          \<or> (\<exists>m. f (text_of c') = Inl (RaisedException m) \<and>
               embed_loop f d i (c # cs) = Inl (Unexpected (i + length (c # pre)) m))"
      by auto
    from cs have "c # cs = (c # pre) @ c' # post" by simp
    moreover from g pre have "list_all ?good (c # pre)" by simp
    ultimately show ?thesis using ne out' by blast
  qed
  show ?case
  proof (cases "text_of c = []")
    case True
    then have eq: "embed_loop f d i (c # cs) = embed_loop f d (Suc i) cs" by simp
    from Cons.IH[of "Suc i"] show ?thesis
    proof
      assume "?ok (Suc i) cs"
      with True eq show ?thesis by auto
    next
      assume "?bad (Suc i) cs"
      with True eq have "?bad i (c # cs)" by (intro later) simp_all
      then show ?thesis ..
    qed
  next
    case False
    show ?thesis
    proof (cases "f (text_of c)")
      case (Inl e)
      with False have "?bad i (c # cs)"
        by (cases e; intro first) simp_all
      then show ?thesis ..
    next
      case (Inr v)
      show ?thesis
      proof (cases "int (length v) = d")
        case wrong: False
        with False Inr have "?bad i (c # cs)" by (intro first) simp_all
        then show ?thesis ..
      next
        case ok: True
        from Cons.IH[of "Suc i"] show ?thesis
        proof
          assume "?ok (Suc i) cs"
          then obtain vs where vs: "list_all2 (\<lambda>c v. f (text_of c) = Inr v \<and> int (length v) = d)
                (filter ?ne cs) vs"
            and r: "embed_loop f d (Suc i) cs =
                Inr (map2 (\<lambda>c v. c\<lparr>embedding := Some v\<rparr>) (filter ?ne cs) vs)"
            by blast
          have "list_all2 (\<lambda>c v. f (text_of c) = Inr v \<and> int (length v) = d)
                  (filter ?ne (c # cs)) (v # vs)"
            using False Inr ok vs by simp
          moreover have "embed_loop f d i (c # cs) =
                Inr (map2 (\<lambda>c v. c\<lparr>embedding := Some v\<rparr>) (filter ?ne (c # cs)) (v # vs))"
            using False Inr ok r by simp
          ultimately have "?ok i (c # cs)" by blast
          then show ?thesis ..
        next
          assume "?bad (Suc i) cs"
          with False Inr ok have "?bad i (c # cs)" by (intro later) auto
          then show ?thesis ..
        qed
      qed
    qed
  qed
qed

lemma embed_loop_skips_empty:
  "embed_loop (f([] := x)) d i chunks = embed_loop f d i chunks"
  by (induction chunks arbitrary: i)
     (simp_all add: Let_def split: sum.splits callback_exn.splits)

text \<open>
  C2, as stated, fails when the embedding function itself raises: for a function that
  raises an exception on the first chunk of non-empty text, \<open>embed_chunks\<close> neither returns
  embedded chunks nor reports a dimension mismatch; it raises the \<open>EmbeddingError\<close> that
  wraps the exception, with the index of the chunk.
\<close>

theorem embed_chunks_raising_callback_counterexample:
  "embed_chunks two_chunks raising_callback 384 = Inl (Unexpected 0 ''boom'') \<and>
   (case embed_chunks two_chunks raising_callback 384 of
      Inr embedded_chunks \<Rightarrow> False
    | Inl (DimensionMismatch expected got) \<Rightarrow> False
    | Inl (Reraised message) \<Rightarrow> False
    | Inl (Unexpected i message) \<Rightarrow> True)"
  by (simp add: embed_chunks_def two_chunks_def text_of_def raising_callback_def)

text \<open>
  C2. For every chunk sequence and every embedding function, \<open>embed_chunks\<close> has one of
  four outcomes. It returns the chunks of non-empty text, in order, each with the vector the
  function returned for its text, of length \<open>dimension\<close>. Or there is a first chunk of
  non-empty text that is not embedded, every chunk before it being empty or embedded with
  a vector of length \<open>dimension\<close>, and then: the function returned a vector of another
  length and the error is the dimension mismatch of that length; or the function raised an
  \<open>EmbeddingError\<close>, which is raised again; or the function raised another exception, which
  is wrapped in an \<open>EmbeddingError\<close> with the index of the chunk. The function is not called
  on an empty text: what it would do there changes nothing.
\<close>

theorem embed_chunks_outcomes:
  "((\<exists>vs. list_all2 (\<lambda>c v. embedding_function (text_of c) = Inr v \<and>
                              int (length v) = dimension)
              (filter (\<lambda>c. text_of c \<noteq> []) chunks) vs \<and>
            embed_chunks chunks embedding_function dimension =
              Inr (map2 (\<lambda>c v. c\<lparr>embedding := Some v\<rparr>)
                     (filter (\<lambda>c. text_of c \<noteq> []) chunks) vs))
    \<or> (\<exists>pre c post. chunks = pre @ c # post \<and>
          list_all (\<lambda>p. text_of p = [] \<or>
                        (\<exists>v. embedding_function (text_of p) = Inr v \<and>
                             int (length v) = dimension)) pre \<and>
          text_of c \<noteq> [] \<and>
          ((\<exists>v. embedding_function (text_of c) = Inr v \<and> int (length v) \<noteq> dimension \<and>
                embed_chunks chunks embedding_function dimension =
                  Inl (DimensionMismatch dimension (length v)))
           \<or> (\<exists>m. embedding_function (text_of c) = Inl (RaisedEmbeddingError m) \<and>
                embed_chunks chunks embedding_function dimension = Inl (Reraised m))
           \<or> (\<exists>m. embedding_function (text_of c) = Inl (RaisedException m) \<and>
                embed_chunks chunks embedding_function dimension =
                  Inl (Unexpected (length pre) m)))))
   \<and> embed_chunks chunks (embedding_function([] := x)) dimension =
       embed_chunks chunks embedding_function dimension"
  using embed_loop_outcomes[of embedding_function dimension chunks 0]
  by (simp add: embed_chunks_def embed_loop_skips_empty)

theorem embed_chunks_outcomes_witness:
  "embed_chunks two_chunks create_mock_embedding_function 384 =
     Inr [(hd two_chunks)\<lparr>embedding := Some (replicate 384 0)\<rparr>] \<and>
   embed_chunks two_chunks create_mock_embedding_function 1536 =
     Inl (DimensionMismatch 1536 384) \<and>
   embed_chunks two_chunks raising_callback 384 = Inl (Unexpected 0 ''boom'') \<and>
   embed_chunks two_chunks
       (create_mock_embedding_function([] := Inl (RaisedException ''unreachable''))) 384 =
     embed_chunks two_chunks create_mock_embedding_function 384"
  using embed_chunks_outcomes[of create_mock_embedding_function 384 two_chunks
      "Inl (RaisedException ''unreachable'')"]
  by (simp add: embed_chunks_def two_chunks_def text_of_def create_mock_embedding_function_def
      raising_callback_def)

lemma embed_two_chunks:
  "embed_chunks two_chunks create_mock_embedding_function 384 =
     Inr [(hd two_chunks)\<lparr>embedding := Some (replicate 384 0)\<rparr>]"
  by (simp add: embed_chunks_def two_chunks_def text_of_def create_mock_embedding_function_def)

lemma embed_two_chunks_mismatch:
  "embed_chunks two_chunks create_mock_embedding_function 1536 =
     Inl (DimensionMismatch 1536 384)"
  by (simp add: embed_chunks_def two_chunks_def text_of_def create_mock_embedding_function_def)

subsection \<open>Content Chunker\<close>

lemma norm_index_le: "int (norm_index (int n) i) \<le> int n"
  by (auto simp: norm_index_def)

lemma rfind_space_found:
  assumes "rfind_space content start stop \<noteq> - 1"
  shows "int (norm_index (int (length content)) start) \<le> rfind_space content start stop \<and>
         rfind_space content start stop < int (norm_index (int (length content)) stop)"
proof -
  let ?s = "norm_index (int (length content)) start"
  let ?e = "norm_index (int (length content)) stop"
  let ?hits = "filter (\<lambda>i. content ! i = CHR '' '') (rev [?s..<?e])"
  from assms obtain i rest where hits: "?hits = i # rest"
    by (cases ?hits) (simp_all add: rfind_space_def Let_def)
  then have r: "rfind_space content start stop = int i"
    by (simp add: rfind_space_def Let_def)
  have "i \<in> set ?hits" using hits by simp
  then have "?s \<le> i \<and> i < ?e" by simp
  with r show ?thesis by simp
qed

lemma chunk_loop_Some_not_overlapping:
  assumes "chunk_loop content max_chunk_size overlap start chunks = Some y"
  shows "\<not> (0 < overlap \<and> start < int (length content))"
  using assms
proof (induction rule: chunk_loop.raw_induct[rotated 1, consumes 1])
  case (1 loop content max_chunk_size overlap start chunks y)
  show ?case
  proof
    assume a: "0 < overlap \<and> start < int (length content)"
    define end0 where "end0 = start + max_chunk_size"
    define end1 where "end1 = (if end0 < int (length content)
                     then (let last_space = rfind_space content start end0
                           in if last_space \<noteq> - 1 then last_space else end0)
                     else int (length content))"
    define chunk where "chunk = strip (slice content start end1)"
    define chunks' where "chunks' = (if chunk \<noteq> [] then chunks @ [chunk] else chunks)"
    have le: "end1 \<le> int (length content)"
    proof (cases "end0 < int (length content)")
      case False
      then show ?thesis by (simp add: end1_def)
    next
      case True
      show ?thesis
      proof (cases "rfind_space content start end0 = - 1")
        case True
        with \<open>end0 < int (length content)\<close> show ?thesis by (simp add: end1_def)
      next
        case False
        from rfind_space_found[OF False] norm_index_le[of "length content" end0]
        have "rfind_space content start end0 < int (length content)" by linarith
        with False True show ?thesis by (simp add: end1_def)
      qed
    qed
    from a have lt: "start < int (length content)" by simp
    have "loop content max_chunk_size overlap (end1 - overlap) chunks' = Some y"
      using "1.hyps" unfolding end0_def end1_def chunk_def chunks'_def Let_def
      by (simp only: lt if_True)
    from "1.IH"[OF this] a le show False by simp
  qed
qed

lemma chunk_loop_diverges:
  "0 < overlap \<Longrightarrow> start < int (length content) \<Longrightarrow>
   chunk_loop content max_chunk_size overlap start chunks = None"
  using chunk_loop_Some_not_overlapping[of content max_chunk_size overlap start chunks]
  by (cases "chunk_loop content max_chunk_size overlap start chunks") auto

lemma chunk_firecrawl_content_diverges:
  assumes "0 < overlap" "max_chunk_size < int (length content)" "0 \<le> max_chunk_size"
  shows "chunk_firecrawl_content content max_chunk_size overlap = None"
proof -
  from assms have "0 < int (length content)" by linarith
  with assms(1) have "chunk_loop content max_chunk_size overlap 0 [] = None"
    by (rule chunk_loop_diverges)
  with assms(2) show ?thesis by (simp add: chunk_firecrawl_content_def)
qed

lemma chunk_loop_stuck_at_space:
  assumes "chunk_loop content max_chunk_size overlap start chunks = Some y"
  shows "\<not> (content = ''aaaaa bbbbbbbbbb'' \<and> max_chunk_size = 5 \<and> overlap = 0 \<and> start = 5)"
  using assms
proof (induction rule: chunk_loop.raw_induct[rotated 1, consumes 1])
  case (1 loop content max_chunk_size overlap start chunks y)
  show ?case
  proof
    assume a: "content = ''aaaaa bbbbbbbbbb'' \<and> max_chunk_size = 5 \<and> overlap = 0 \<and> start = 5"
    have r: "rfind_space ''aaaaa bbbbbbbbbb'' 5 10 = 5" by code_simp
    have s: "strip (slice ''aaaaa bbbbbbbbbb'' 5 5) = []" by code_simp
    from "1.hyps" a have "loop content max_chunk_size overlap start chunks = Some y"
      by (simp add: r s)
    from "1.IH"[OF this] a show False by simp
  qed
qed

lemma chunker_stuck_without_overlap:
  "chunk_firecrawl_content ''aaaaa bbbbbbbbbb'' 5 0 = None"
proof -
  let ?c = "''aaaaa bbbbbbbbbb''"
  have r: "rfind_space ?c 0 5 = - 1" by code_simp
  have s: "strip (slice ?c 0 5) = ''aaaaa''" by code_simp
  have "chunk_loop ?c 5 0 5 [''aaaaa''] = None"
    using chunk_loop_stuck_at_space[of ?c 5 0 5 "[''aaaaa'']"]
    by (cases "chunk_loop ?c 5 0 5 [''aaaaa'']") auto
  then have "chunk_loop ?c 5 0 0 [] = None"
    by (subst chunk_loop.simps) (simp add: r s)
  then show ?thesis by (simp add: chunk_firecrawl_content_def)
qed

text \<open>
  C3. The chunker has no guard against a window that does not advance. Whenever the text
  is longer than \<open>max_chunk_size\<close> and \<open>overlap\<close> is positive, the loop never ends
  (\<open>chunk_firecrawl_content_diverges\<close>): the next start is at most the length of the text
  less the overlap. This covers \<open>overlap \<ge> max_chunk_size\<close>, and the call of the
  repository's own test, 700 characters with \<open>max_chunk_size = 100\<close> and
  \<open>overlap = 20\<close>. Without overlap the loop is stuck as well once a window starts at a
  space and holds no later one.
\<close>

theorem chunker_does_not_terminate:
  "chunk_firecrawl_content ''aaaaaaaaaa'' 5 5 = None \<and>
   chunk_firecrawl_content test_content 100 20 = None \<and>
   chunk_firecrawl_content ''aaaaa bbbbbbbbbb'' 5 0 = None"
proof -
  have "chunk_firecrawl_content ''aaaaaaaaaa'' 5 5 = None"
    by (rule chunk_firecrawl_content_diverges) simp_all
  moreover have "chunk_firecrawl_content test_content 100 20 = None"
    by (rule chunk_firecrawl_content_diverges)
       (simp_all add: test_content_def length_concat_replicate)
  ultimately show ?thesis using chunker_stuck_without_overlap by simp
qed



lemma strip_Nil_all_space: "strip s = [] \<Longrightarrow> list_all isspace s"
proof -
  assume "strip s = []"
  then have "dropWhile isspace (rev (dropWhile isspace s)) = []" by (simp add: strip_def)
  then have all: "\<forall>x\<in>set (dropWhile isspace s). isspace x"
    by simp
  have "dropWhile isspace s = []"
  proof (rule ccontr)
    assume ne: "dropWhile isspace s \<noteq> []"
    then have "\<not> isspace (hd (dropWhile isspace s))" by (rule hd_dropWhile)
    moreover from ne have "hd (dropWhile isspace s) \<in> set (dropWhile isspace s)" by simp
    ultimately show False using all by blast
  qed
  then show ?thesis by (simp add: list_all_iff)
qed























subsection \<open>Batched Upsert Engine\<close>

lemma batches_remaining:
  fixes b k n :: nat
  assumes "0 < b"
  shows "k * b < n \<longleftrightarrow> k < (n + b - 1) div b"
proof -
  have "k < (n + b - 1) div b \<longleftrightarrow> Suc k \<le> (n + b - 1) div b" by auto
  also have "\<dots> \<longleftrightarrow> Suc k * b \<le> n + b - 1"
    using assms by (simp add: less_eq_div_iff_mult_less_eq)
  also have "\<dots> \<longleftrightarrow> k * b < n" using assms by auto
  finally show ?thesis by simp
qed

lemma nat_piece:
  fixes b n x :: nat
  shows "min b (n - x) + (n - (x + b)) = n - x"
  by arith

lemma ceil_div:
  fixes b n :: nat
  assumes "0 < b"
  shows "(n + b - 1) div b = n div b + (if n mod b = 0 then 0 else 1)"
proof -
  have e: "n = b * (n div b) + n mod b" by simp
  show ?thesis
  proof (cases "n mod b = 0")
    case True
    with e assms have "n + b - 1 = b * (n div b) + (b - 1)" by linarith
    then have "(n + b - 1) div b = n div b + (b - 1) div b"
      using assms by (simp only: div_mult_self4)
    with assms True show ?thesis by simp
  next
    case False
    have d: "b * (n div b + 1) = b * (n div b) + b" by (simp add: algebra_simps)
    from e d False have "n + b - 1 = b * (n div b + 1) + (n mod b - 1)" by linarith
    then have "(n + b - 1) div b = (n div b + 1) + (n mod b - 1) div b"
      using assms by (simp only: div_mult_self4)
    moreover have "(n mod b - 1) div b = 0"
      using assms by (simp add: less_imp_diff_less)
    ultimately show ?thesis using False by simp
  qed
qed

lemma concat_batches:
  "concat (map (\<lambda>j. take b (drop (j * b) xs)) [0..<m]) = take (m * b) xs"
proof (induction m)
  case 0
  show ?case by simp
next
  case (Suc m)
  have "take (m * b + b) xs = take (m * b) xs @ take b (drop (m * b) xs)"
    by (rule take_add)
  with Suc show ?case by (simp add: add.commute)
qed

lemma batch_sizes:
  fixes b n :: nat
  assumes "0 < b"
  shows "map (\<lambda>j. min (n - j * b) b) [0..<(n + b - 1) div b] =
         replicate (n div b) b @ (if n mod b = 0 then [] else [n mod b])"
proof -
  let ?g = "\<lambda>j. min (n - j * b) b"
  have full: "map ?g [0..<n div b] = replicate (n div b) b"
  proof (rule nth_equalityI)
    show "length (map ?g [0..<n div b]) = length (replicate (n div b) b)" by simp
  next
    fix i assume "i < length (map ?g [0..<n div b])"
    then have i: "i < n div b" by simp
    then have "Suc i \<le> n div b" by simp
    with assms have "Suc i * b \<le> n" by (simp only: less_eq_div_iff_mult_less_eq)
    then have "b \<le> n - i * b" by simp
    with i show "map ?g [0..<n div b] ! i = replicate (n div b) b ! i" by simp
  qed
  have last: "?g (n div b) = n mod b"
  proof -
    have "n - n div b * b = n mod b" by (simp add: minus_div_mult_eq_mod)
    moreover from assms have "n mod b < b" by simp
    ultimately show ?thesis by simp
  qed
  show ?thesis
  proof (cases "n mod b = 0")
    case True
    with ceil_div[OF assms, of n] have "(n + b - 1) div b = n div b" by simp
    with True full show ?thesis by simp
  next
    case False
    with ceil_div[OF assms, of n] have "(n + b - 1) div b = Suc (n div b)" by simp
    with False full last show ?thesis by simp
  qed
qed

lemma upsert_loop_recording:
  fixes upsert :: "('s, 'v) upsert"
  assumes b: "0 < batch_size"
    and k: "k \<le> (length vectors + nat batch_size - 1) div nat batch_size"
  shows "\<exists>calls.
      upsert_loop (recording upsert) namespace vectors batch_size (k * nat batch_size) tot
          (st, calls0) =
        (fst (upsert_loop upsert namespace vectors batch_size (k * nat batch_size) tot st),
         snd (upsert_loop upsert namespace vectors batch_size (k * nat batch_size) tot st),
         calls0 @ calls) \<and>
      map call_batch calls =
        take (length calls)
          (map (\<lambda>j. take (nat batch_size) (drop (j * nat batch_size) vectors))
             [k..<(length vectors + nat batch_size - 1) div nat batch_size]) \<and>
      list_all (\<lambda>c. call_namespace c = namespace) calls \<and>
      list_all returned (butlast calls) \<and>
      (case fst (upsert_loop upsert namespace vectors batch_size (k * nat batch_size) tot st) of
         Inr t \<Rightarrow>
           length calls = (length vectors + nat batch_size - 1) div nat batch_size - k \<and>
           list_all returned calls \<and> t = tot + sum_list (map acknowledged calls)
       | Inl err \<Rightarrow>
           calls \<noteq> [] \<and> (\<exists>e. call_outcome (last calls) = Inl e \<and> err = PineconeError e))"
  using k
proof (induction "(length vectors + nat batch_size - 1) div nat batch_size - k"
    arbitrary: k tot st calls0)
  case 0
  let ?m = "(length vectors + nat batch_size - 1) div nat batch_size"
  from 0 have "k = ?m" by simp
  then have out: "\<not> k * nat batch_size < length vectors"
    using batches_remaining[of "nat batch_size" k "length vectors"] b by simp
  then have "upsert_loop upsert namespace vectors batch_size (k * nat batch_size) tot st =
      (Inr tot, st)"
    by (subst upsert_loop.simps) simp
  moreover from out have "upsert_loop (recording upsert) namespace vectors batch_size
      (k * nat batch_size) tot (st, calls0) = (Inr tot, st, calls0)"
    by (subst upsert_loop.simps) simp
  ultimately show ?case using \<open>k = ?m\<close> by (intro exI[of _ "[]"]) simp
next
  case (Suc d)
  let ?b = "nat batch_size"
  let ?m = "(length vectors + ?b - 1) div ?b"
  let ?f = "\<lambda>j. take ?b (drop (j * ?b) vectors)"
  from Suc.hyps(2) have lt: "k < ?m" by linarith
  then have in_range: "k * ?b < length vectors"
    using batches_remaining[of ?b k "length vectors"] b by simp
  have idx: "k * ?b + ?b = Suc k * ?b" by simp
  have upt: "[k..<?m] = k # [Suc k..<?m]" using lt by (simp add: upt_conv_Cons)
  obtain outcome st1 where call: "upsert st (?f k) namespace = (outcome, st1)"
    by (cases "upsert st (?f k) namespace")
  let ?c = "\<lparr>call_batch = ?f k, call_namespace = namespace, call_outcome = outcome\<rparr>"
  have rcall: "recording upsert (st, calls0) (?f k) namespace = (outcome, st1, calls0 @ [?c])"
    using call by (simp add: recording_def)
  show ?case
  proof (cases outcome)
    case (Inl e)
    have "upsert_loop upsert namespace vectors batch_size (k * ?b) tot st =
        (Inl (PineconeError e), st1)"
      using b in_range call Inl by (subst upsert_loop.simps) (simp add: Let_def)
    moreover have "upsert_loop (recording upsert) namespace vectors batch_size (k * ?b) tot
        (st, calls0) = (Inl (PineconeError e), st1, calls0 @ [?c])"
      using b in_range rcall Inl by (subst upsert_loop.simps) (simp add: Let_def)
    ultimately show ?thesis
      using Inl upt by (intro exI[of _ "[?c]"]) (simp add: returned_def)
  next
    case (Inr r)
    let ?tot = "tot + batch_upserted r (?f k)"
    have plain: "upsert_loop upsert namespace vectors batch_size (k * ?b) tot st =
        upsert_loop upsert namespace vectors batch_size (Suc k * ?b) ?tot st1"
      using b in_range call Inr
      by (subst upsert_loop.simps) (simp add: Let_def idx del: mult_Suc)
    have rec: "upsert_loop (recording upsert) namespace vectors batch_size (k * ?b) tot
        (st, calls0) =
        upsert_loop (recording upsert) namespace vectors batch_size (Suc k * ?b) ?tot
          (st1, calls0 @ [?c])"
      using b in_range rcall Inr
      by (subst upsert_loop.simps) (simp add: Let_def idx del: mult_Suc)
    from Suc.hyps(2) lt have d: "d = ?m - Suc k" by linarith
    from lt have "Suc k \<le> ?m" by simp
    from Suc.hyps(1)[OF d this, of ?tot st1 "calls0 @ [?c]"]
    obtain calls where run: "upsert_loop (recording upsert) namespace vectors batch_size
          (Suc k * ?b) ?tot (st1, calls0 @ [?c]) =
        (fst (upsert_loop upsert namespace vectors batch_size (Suc k * ?b) ?tot st1),
         snd (upsert_loop upsert namespace vectors batch_size (Suc k * ?b) ?tot st1),
         (calls0 @ [?c]) @ calls)"
      and batches: "map call_batch calls = take (length calls) (map ?f [Suc k..<?m])"
      and ns: "list_all (\<lambda>c. call_namespace c = namespace) calls"
      and but: "list_all returned (butlast calls)"
      and res: "(case fst (upsert_loop upsert namespace vectors batch_size (Suc k * ?b) ?tot st1) of
         Inr t \<Rightarrow> length calls = ?m - Suc k \<and> list_all returned calls \<and>
             t = ?tot + sum_list (map acknowledged calls)
       | Inl err \<Rightarrow>
           calls \<noteq> [] \<and> (\<exists>e. call_outcome (last calls) = Inl e \<and> err = PineconeError e))"
      by blast
    have ret: "returned ?c" using Inr by (simp add: returned_def)
    have ack: "acknowledged ?c = batch_upserted r (?f k)" using Inr by (simp add: acknowledged_def)
    show ?thesis
    proof (intro exI[of _ "?c # calls"] conjI)
      show "upsert_loop (recording upsert) namespace vectors batch_size (k * ?b) tot (st, calls0) =
          (fst (upsert_loop upsert namespace vectors batch_size (k * ?b) tot st),
           snd (upsert_loop upsert namespace vectors batch_size (k * ?b) tot st),
           calls0 @ ?c # calls)"
        using rec run plain by simp
      show "map call_batch (?c # calls) = take (length (?c # calls)) (map ?f [k..<?m])"
        using batches upt by simp
      show "list_all (\<lambda>c. call_namespace c = namespace) (?c # calls)"
        using ns by simp
      show "list_all returned (butlast (?c # calls))"
        using but ret by simp
      show "case fst (upsert_loop upsert namespace vectors batch_size (k * ?b) tot st) of
         Inr t \<Rightarrow> length (?c # calls) = ?m - k \<and> list_all returned (?c # calls) \<and>
             t = tot + sum_list (map acknowledged (?c # calls))
       | Inl err \<Rightarrow>
           ?c # calls \<noteq> [] \<and>
           (\<exists>e. call_outcome (last (?c # calls)) = Inl e \<and> err = PineconeError e)"
      proof (cases "fst (upsert_loop upsert namespace vectors batch_size (Suc k * ?b) ?tot st1)")
        case (Inl err)
        with res show ?thesis unfolding plain by auto
      next
        case (Inr t)
        with res have "length calls = ?m - Suc k" "list_all returned calls"
          "t = ?tot + sum_list (map acknowledged calls)"
          by simp_all
        moreover from lt have "Suc (?m - Suc k) = ?m - k" by linarith
        ultimately show ?thesis unfolding plain using Inr ret ack by simp
      qed
    qed
  qed
qed

lemma ceil_div_ceiling:
  fixes b n :: nat
  assumes "0 < b"
  shows "int ((n + b - 1) div b) = \<lceil>real n / real b\<rceil>"
proof -
  let ?q = "n div b" and ?r = "n mod b"
  have n: "real n = real b * real ?q + real ?r"
    by (metis of_nat_add of_nat_mult mult_div_mod_eq)
  from assms have bpos: "0 < real b" by simp
  have frac: "real n / real b = real ?q + real ?r / real b"
    using bpos by (simp add: n add_divide_distrib)
  show ?thesis
  proof (cases "?r = 0")
    case True
    with frac ceil_div[OF assms, of n] show ?thesis by simp
  next
    case False
    from assms have "?r < b" by simp
    then have "real ?r / real b \<le> 1" using bpos by simp
    moreover from False have "0 < real ?r / real b" using bpos by simp
    ultimately have "\<lceil>real n / real b\<rceil> = int ?q + 1"
      unfolding frac by (intro ceiling_unique) simp_all
    with False ceil_div[OF assms, of n] show ?thesis by simp
  qed
qed

lemma sum_list_int_lengths:
  "sum_list (map (\<lambda>xs. int (length xs)) xss) = int (length (concat xss))"
  by (induction xss) simp_all

lemma sum_list_lengths: "sum_list (map length xss) = length (concat xss)"
  by (induction xss) simp_all

text \<open>
  C5, as stated, fails on an index whose \<open>upsert\<close> raises: with 250 records and batches of
  100 the engine makes one call, not three, and raises the error that wraps the exception.
\<close>

theorem upsert_unavailable_index_counterexample:
  "upsert_calls unavailable_index () example_vectors ''repo-code'' 100 =
     [\<lparr>call_batch = take 100 example_vectors, call_namespace = ''repo-code'',
       call_outcome = Inl ''service unavailable''\<rparr>] \<and>
   length (upsert_calls unavailable_index () example_vectors ''repo-code'' 100) = 1 \<and>
   length (contiguous_batches example_vectors 100) = 3 \<and>
   fst (upsert_vectors unavailable_index () example_vectors ''repo-code'' 100) =
     Inl (PineconeError ''service unavailable'')"
proof -
  have n: "length example_vectors = 250" by (simp add: example_vectors_def)
  have "upsert_vectors (recording unavailable_index) ((), []) example_vectors ''repo-code'' 100 =
      (Inl (PineconeError ''service unavailable''), (),
       [\<lparr>call_batch = take 100 example_vectors, call_namespace = ''repo-code'',
         call_outcome = Inl ''service unavailable''\<rparr>])"
    unfolding upsert_vectors_def
    by (subst upsert_loop.simps) (simp add: n recording_def unavailable_index_def)
  moreover have "upsert_vectors unavailable_index () example_vectors ''repo-code'' 100 =
      (Inl (PineconeError ''service unavailable''), ())"
    unfolding upsert_vectors_def
    by (subst upsert_loop.simps) (simp add: n unavailable_index_def)
  ultimately show ?thesis by (simp add: upsert_calls_def contiguous_batches_def n)
qed

lemma mock_run:
  "upsert_calls MockIndex_upsert Map.empty example_vectors ''repo-code'' 100 =
     [\<lparr>call_batch = take 100 example_vectors, call_namespace = ''repo-code'',
       call_outcome = Inr (RestResponse (Some 100))\<rparr>,
      \<lparr>call_batch = take 100 (drop 100 example_vectors), call_namespace = ''repo-code'',
       call_outcome = Inr (RestResponse (Some 100))\<rparr>,
      \<lparr>call_batch = take 100 (drop 200 example_vectors), call_namespace = ''repo-code'',
       call_outcome = Inr (RestResponse (Some 50))\<rparr>]"
proof -
  have n: "length example_vectors = 250" by (simp add: example_vectors_def)
  let ?R = "recording MockIndex_upsert"
  obtain s1 where s1: "?R (Map.empty, []) (take 100 example_vectors) ''repo-code'' =
      (Inr (RestResponse (Some 100)), s1,
       [\<lparr>call_batch = take 100 example_vectors, call_namespace = ''repo-code'',
         call_outcome = Inr (RestResponse (Some 100))\<rparr>])"
    by (simp add: recording_def MockIndex_upsert_def n)
  obtain s2 where s2: "?R (s1, [\<lparr>call_batch = take 100 example_vectors,
         call_namespace = ''repo-code'', call_outcome = Inr (RestResponse (Some 100))\<rparr>])
       (take 100 (drop 100 example_vectors)) ''repo-code'' =
      (Inr (RestResponse (Some 100)), s2,
       [\<lparr>call_batch = take 100 example_vectors, call_namespace = ''repo-code'',
         call_outcome = Inr (RestResponse (Some 100))\<rparr>,
        \<lparr>call_batch = take 100 (drop 100 example_vectors), call_namespace = ''repo-code'',
         call_outcome = Inr (RestResponse (Some 100))\<rparr>])"
    by (simp add: recording_def MockIndex_upsert_def n)
  obtain s3 where s3: "?R (s2, [\<lparr>call_batch = take 100 example_vectors,
         call_namespace = ''repo-code'', call_outcome = Inr (RestResponse (Some 100))\<rparr>,
        \<lparr>call_batch = take 100 (drop 100 example_vectors), call_namespace = ''repo-code'',
         call_outcome = Inr (RestResponse (Some 100))\<rparr>])
       (drop 200 example_vectors) ''repo-code'' =
      (Inr (RestResponse (Some 50)), s3,
       [\<lparr>call_batch = take 100 example_vectors, call_namespace = ''repo-code'',
         call_outcome = Inr (RestResponse (Some 100))\<rparr>,
        \<lparr>call_batch = take 100 (drop 100 example_vectors), call_namespace = ''repo-code'',
         call_outcome = Inr (RestResponse (Some 100))\<rparr>,
        \<lparr>call_batch = take 100 (drop 200 example_vectors), call_namespace = ''repo-code'',
         call_outcome = Inr (RestResponse (Some 50))\<rparr>])"
    by (simp add: recording_def MockIndex_upsert_def n)
  show ?thesis
    unfolding upsert_calls_def upsert_vectors_def
    apply simp
    apply (subst upsert_loop.simps, simp add: n s1 Let_def)
    apply (subst upsert_loop.simps, simp add: n s2 Let_def)
    apply (subst upsert_loop.simps, simp add: n s3 Let_def)
    apply (subst upsert_loop.simps, simp add: n)
    done
qed

text \<open>
  C5. For a positive batch size \<open>b\<close> and \<open>n\<close> records, on any index. Recording the calls
  changes neither the result nor the state of the index. The calls that \<open>upsert_vectors\<close>
  makes are, in order, the first of the contiguous batches, each with the namespace given,
  and every call but the last returned. If the run returns a total, the calls are exactly
  the contiguous batches, all returned, and the total is the sum of the counts they
  acknowledged; if it raises, the last call made raised and the error wraps its message.
  When every call made returned and acknowledged the length of its batch, the total is \<open>n\<close>.
  The contiguous batches are the ceiling of \<open>n / b\<close> slices, their concatenation is the
  input, and their sizes are \<open>b, ..., b\<close> followed by \<open>n mod b\<close> when that is not zero.
\<close>

theorem upsert_vectors_batches:
  fixes upsert :: "('s, 'v) upsert"
  assumes "0 < batch_size"
  shows "upsert_vectors (recording upsert) (st, []) vectors namespace batch_size =
           (fst (upsert_vectors upsert st vectors namespace batch_size),
            snd (upsert_vectors upsert st vectors namespace batch_size),
            upsert_calls upsert st vectors namespace batch_size) \<and>
         map call_batch (upsert_calls upsert st vectors namespace batch_size) =
           take (length (upsert_calls upsert st vectors namespace batch_size))
             (contiguous_batches vectors (nat batch_size)) \<and>
         list_all (\<lambda>c. call_namespace c = namespace)
           (upsert_calls upsert st vectors namespace batch_size) \<and>
         list_all returned (butlast (upsert_calls upsert st vectors namespace batch_size)) \<and>
         (case fst (upsert_vectors upsert st vectors namespace batch_size) of
            Inr total_upserted \<Rightarrow>
              map call_batch (upsert_calls upsert st vectors namespace batch_size) =
                contiguous_batches vectors (nat batch_size) \<and>
              list_all returned (upsert_calls upsert st vectors namespace batch_size) \<and>
              total_upserted =
                sum_list (map acknowledged (upsert_calls upsert st vectors namespace batch_size))
          | Inl err \<Rightarrow>
              upsert_calls upsert st vectors namespace batch_size \<noteq> [] \<and>
              (\<exists>e. call_outcome (last (upsert_calls upsert st vectors namespace batch_size)) =
                     Inl e \<and> err = PineconeError e)) \<and>
         (list_all (\<lambda>c. returned c \<and> acknowledged c = int (length (call_batch c)))
            (upsert_calls upsert st vectors namespace batch_size) \<longrightarrow>
          fst (upsert_vectors upsert st vectors namespace batch_size) =
            Inr (int (length vectors))) \<and>
         int (length (contiguous_batches vectors (nat batch_size))) =
           \<lceil>real (length vectors) / real_of_int batch_size\<rceil> \<and>
         concat (contiguous_batches vectors (nat batch_size)) = vectors \<and>
         map length (contiguous_batches vectors (nat batch_size)) =
           replicate (length vectors div nat batch_size) (nat batch_size) @
           (if length vectors mod nat batch_size = 0 then []
            else [length vectors mod nat batch_size])"
proof -
  let ?b = "nat batch_size"
  let ?n = "length vectors"
  let ?m = "(?n + ?b - 1) div ?b"
  let ?B = "contiguous_batches vectors ?b"
  let ?P = "upsert_vectors upsert st vectors namespace batch_size"
  let ?C = "upsert_calls upsert st vectors namespace batch_size"
  from assms have b: "0 < ?b" by simp
  have P: "?P = upsert_loop upsert namespace vectors batch_size (0 * ?b) 0 st"
    using assms by (simp add: upsert_vectors_def)
  have R: "upsert_vectors (recording upsert) (st, []) vectors namespace batch_size =
      upsert_loop (recording upsert) namespace vectors batch_size (0 * ?b) 0 (st, [])"
    using assms by (simp add: upsert_vectors_def)
  from upsert_loop_recording[OF assms, of 0 vectors upsert namespace 0 st "[]"]
  obtain calls where run: "upsert_loop (recording upsert) namespace vectors batch_size (0 * ?b) 0
        (st, []) = (fst ?P, snd ?P, [] @ calls)"
    and batches: "map call_batch calls = take (length calls) ?B"
    and ns: "list_all (\<lambda>c. call_namespace c = namespace) calls"
    and but: "list_all returned (butlast calls)"
    and res: "(case fst ?P of
         Inr t \<Rightarrow> length calls = ?m - 0 \<and> list_all returned calls \<and>
           t = 0 + sum_list (map acknowledged calls)
       | Inl err \<Rightarrow>
           calls \<noteq> [] \<and> (\<exists>e. call_outcome (last calls) = Inl e \<and> err = PineconeError e))"
    unfolding P contiguous_batches_def by blast
  from run R have C: "?C = calls" by (simp add: upsert_calls_def)
  have lenB: "length ?B = ?m" by (simp add: contiguous_batches_def)
  have "?n \<le> ?m * ?b"
    using batches_remaining[OF b, of ?m ?n] by simp
  then have cat: "concat ?B = vectors" by (simp add: contiguous_batches_def concat_batches)
  have sizes: "map length ?B =
      replicate (?n div ?b) ?b @ (if ?n mod ?b = 0 then [] else [?n mod ?b])"
    using batch_sizes[OF b, of ?n] by (simp add: contiguous_batches_def comp_def)
  have ceil: "int (length ?B) = \<lceil>real ?n / real_of_int batch_size\<rceil>"
    using ceil_div_ceiling[OF b, of ?n] assms by (simp add: lenB)
  have c1: "upsert_vectors (recording upsert) (st, []) vectors namespace batch_size =
      (fst ?P, snd ?P, ?C)"
    using run R C by simp
  have c5: "(case fst ?P of
      Inr total_upserted \<Rightarrow> map call_batch ?C = ?B \<and> list_all returned ?C \<and>
        total_upserted = sum_list (map acknowledged ?C)
    | Inl err \<Rightarrow> ?C \<noteq> [] \<and> (\<exists>e. call_outcome (last ?C) = Inl e \<and> err = PineconeError e))"
  proof (cases "fst ?P")
    case (Inl err)
    with res C show ?thesis by simp
  next
    case (Inr t)
    with res have "length calls = length ?B" "list_all returned calls"
      "t = sum_list (map acknowledged calls)"
      by (simp_all add: lenB)
    with batches C Inr show ?thesis by simp
  qed
  have c6: "fst ?P = Inr (int ?n)"
    if all: "list_all (\<lambda>c. returned c \<and> acknowledged c = int (length (call_batch c))) ?C"
  proof (cases "fst ?P")
    case (Inl err)
    with c5 obtain e where "?C \<noteq> []" "call_outcome (last ?C) = Inl e" by auto
    moreover from this all have "returned (last ?C)" by (simp add: list_all_iff)
    ultimately show ?thesis by (simp add: returned_def)
  next
    case (Inr t)
    with c5 have bs: "map call_batch ?C = ?B" and t: "t = sum_list (map acknowledged ?C)"
      by simp_all
    from all have "map acknowledged ?C = map (\<lambda>c. int (length (call_batch c))) ?C"
      by (simp add: list_all_iff)
    also have "\<dots> = map (\<lambda>xs. int (length xs)) (map call_batch ?C)" by (simp add: comp_def)
    finally have "sum_list (map acknowledged ?C) = int (length (concat ?B))"
      by (simp add: bs sum_list_int_lengths)
    with cat have "sum_list (map acknowledged ?C) = int ?n" by simp
    with Inr t show ?thesis by simp
  qed
  from batches ns but C have c234: "map call_batch ?C = take (length ?C) ?B"
    "list_all (\<lambda>c. call_namespace c = namespace) ?C" "list_all returned (butlast ?C)"
    by simp_all
  from c1 c234 c5 c6 ceil cat sizes show ?thesis by blast
qed

theorem upsert_250_by_100:
  "fst (upsert_vectors MockIndex_upsert Map.empty example_vectors ''repo-code'' 100) = Inr 250 \<and>
   map (\<lambda>c. length (call_batch c))
     (upsert_calls MockIndex_upsert Map.empty example_vectors ''repo-code'' 100) =
     [100, 100, 50] \<and>
   map call_batch (upsert_calls MockIndex_upsert Map.empty example_vectors ''repo-code'' 100) =
     contiguous_batches example_vectors 100 \<and>
   map length (contiguous_batches example_vectors 100) = [100, 100, 50]"
proof -
  have n: "length example_vectors = 250" by (simp add: example_vectors_def)
  have ack: "list_all (\<lambda>c. returned c \<and> acknowledged c = int (length (call_batch c)))
      (upsert_calls MockIndex_upsert Map.empty example_vectors ''repo-code'' 100)"
    by (simp add: mock_run returned_def acknowledged_def n)
  have sizes: "replicate (250 div 100) (100::nat) = [100, 100]" "(250::nat) mod 100 = 50"
    by (simp_all add: numeral_2_eq_2)
  note batches = upsert_vectors_batches[of 100 MockIndex_upsert Map.empty example_vectors
      "''repo-code''"]
  from batches have "list_all (\<lambda>c. returned c \<and> acknowledged c = int (length (call_batch c)))
      (upsert_calls MockIndex_upsert Map.empty example_vectors ''repo-code'' 100) \<longrightarrow>
    fst (upsert_vectors MockIndex_upsert Map.empty example_vectors ''repo-code'' 100) =
      Inr (int (length example_vectors))"
    by simp
  with ack n
  have r: "fst (upsert_vectors MockIndex_upsert Map.empty example_vectors ''repo-code'' 100) =
        Inr 250"
    by simp
  from batches have "map length (contiguous_batches example_vectors (nat 100)) =
      replicate (length example_vectors div nat 100) (nat 100) @
      (if length example_vectors mod nat 100 = 0 then []
       else [length example_vectors mod nat 100])"
    by simp
  then have s: "map length (contiguous_batches example_vectors 100) = [100, 100, 50]"
    by (simp add: n sizes numeral_2_eq_2)
  from batches have "case fst (upsert_vectors MockIndex_upsert Map.empty example_vectors
        ''repo-code'' 100) of
      Inr total_upserted \<Rightarrow>
        map call_batch
          (upsert_calls MockIndex_upsert Map.empty example_vectors ''repo-code'' 100) =
        contiguous_batches example_vectors (nat 100) \<and>
        list_all returned
          (upsert_calls MockIndex_upsert Map.empty example_vectors ''repo-code'' 100) \<and>
        total_upserted = sum_list (map acknowledged
          (upsert_calls MockIndex_upsert Map.empty example_vectors ''repo-code'' 100))
    | Inl err \<Rightarrow>
        upsert_calls MockIndex_upsert Map.empty example_vectors ''repo-code'' 100 \<noteq> [] \<and>
        (\<exists>e. call_outcome (last
           (upsert_calls MockIndex_upsert Map.empty example_vectors ''repo-code'' 100)) =
             Inl e \<and> err = PineconeError e)"
    by simp
  with r
  have b: "map call_batch
      (upsert_calls MockIndex_upsert Map.empty example_vectors ''repo-code'' 100) =
     contiguous_batches example_vectors 100"
    by simp
  have "map (\<lambda>c. length (call_batch c))
     (upsert_calls MockIndex_upsert Map.empty example_vectors ''repo-code'' 100) =
     map length (map call_batch
       (upsert_calls MockIndex_upsert Map.empty example_vectors ''repo-code'' 100))"
    by (simp add: comp_def)
  with b s r show ?thesis by simp
qed

subsection \<open>Chunk Extractor\<close>

lemma fallback_chunks_nonempty: "fallback_chunks file_sections content \<noteq> []"
  by (simp add: fallback_chunks_def Let_def)

lemma fallback_chunks_repository:
  "list_all (\<lambda>c. source_type c = Some ''repository'') (fallback_chunks file_sections content)"
  by (simp add: fallback_chunks_def Let_def repository_chunk_def list_all_iff split_beta)

text \<open>
  The claim C6 as stated fails at two inputs. A file that exists but cannot be opened
  (permission denied) raises nothing: the handler for \<open>FileNotFoundError\<close> does not catch
  it, the general handler does, and the result is the error chunk. And an error raised
  during parsing that is the parser's \<open>ParseError\<close> yields the chunks of the fallback
  extraction, of source type \<open>repository\<close>, not the error chunk.
\<close>

theorem parse_repomix_output_counterexample:
  "(parse_repomix_output (Inl (OtherException ''[Errno 13] Permission denied''))
      (Inl (OtherException ''[Errno 13] Permission denied'')) (\<lambda>content. [])
      :: exn + real chunk list) =
     Inr [error_chunk (OtherException ''[Errno 13] Permission denied'')] \<and>
   (parse_repomix_output (Inr ''plain text'') (Inl (ParseError ''syntax error: line 1, column 0''))
      (\<lambda>content. []) :: exn + real chunk list) =
     Inr [repository_chunk ''plain text'' ''repository_summary.txt'']"
proof -
  have "strip ''plain text'' = ''plain text''" by code_simp
  moreover have "\<not> contains ''<directory_structure>'' ''plain text''" by code_simp
  ultimately show ?thesis
    by (simp add: parse_repomix_output_def fallback_chunks_def)
qed

text \<open>
  C6, amended. The extractor raises exactly when the file is not found: when opening it, or
  the parser opening it again, raises \<open>FileNotFoundError\<close>, which is passed on. Any other
  exception when opening or reading the file, and any exception of the parser other than
  \<open>FileNotFoundError\<close> and \<open>ParseError\<close>, gives the single error chunk. A \<open>ParseError\<close>
  gives the chunks of the fallback extraction. A returned sequence is never empty.
\<close>

theorem parse_repomix_output_outcomes:
  "(\<forall>m. read_file = Inl (FileNotFoundError m) \<longrightarrow>
        parse_repomix_output read_file et_parse findall = Inl (FileNotFoundError m)) \<and>
   (\<forall>e. read_file = Inl e \<and> (\<forall>m. e \<noteq> FileNotFoundError m) \<longrightarrow>
        parse_repomix_output read_file et_parse findall = Inr [error_chunk e]) \<and>
   (\<forall>content m. read_file = Inr content \<and> et_parse = Inl (FileNotFoundError m) \<longrightarrow>
        parse_repomix_output read_file et_parse findall = Inl (FileNotFoundError m)) \<and>
   (\<forall>content m. read_file = Inr content \<and> et_parse = Inl (OtherException m) \<longrightarrow>
        parse_repomix_output read_file et_parse findall =
          Inr [error_chunk (OtherException m)]) \<and>
   (\<forall>content m. read_file = Inr content \<and> et_parse = Inl (ParseError m) \<longrightarrow>
        parse_repomix_output read_file et_parse findall =
          Inr (fallback_chunks (findall content) content)) \<and>
   (\<forall>e. parse_repomix_output read_file et_parse findall = Inl e \<longrightarrow>
        (\<exists>m. e = FileNotFoundError m) \<and>
        (read_file = Inl e \<or> (\<exists>content. read_file = Inr content) \<and> et_parse = Inl e)) \<and>
   (\<forall>chunks. parse_repomix_output read_file et_parse findall = Inr chunks \<longrightarrow> chunks \<noteq> [])"
proof (intro conjI allI impI)
  fix m assume "read_file = Inl (FileNotFoundError m)"
  then show "parse_repomix_output read_file et_parse findall = Inl (FileNotFoundError m)"
    by (simp add: parse_repomix_output_def)
next
  fix e assume "read_file = Inl e \<and> (\<forall>m. e \<noteq> FileNotFoundError m)"
  then show "parse_repomix_output read_file et_parse findall = Inr [error_chunk e]"
    by (cases e) (simp_all add: parse_repomix_output_def)
next
  fix content m assume "read_file = Inr content \<and> et_parse = Inl (FileNotFoundError m)"
  then show "parse_repomix_output read_file et_parse findall = Inl (FileNotFoundError m)"
    by (simp add: parse_repomix_output_def)
next
  fix content m assume "read_file = Inr content \<and> et_parse = Inl (OtherException m)"
  then show "parse_repomix_output read_file et_parse findall =
      Inr [error_chunk (OtherException m)]"
    by (simp add: parse_repomix_output_def)
next
  fix content m assume "read_file = Inr content \<and> et_parse = Inl (ParseError m)"
  then show "parse_repomix_output read_file et_parse findall =
      Inr (fallback_chunks (findall content) content)"
    by (simp add: parse_repomix_output_def)
next
  fix e assume "parse_repomix_output read_file et_parse findall = Inl e"
  then show "\<exists>m. e = FileNotFoundError m"
    by (auto simp: parse_repomix_output_def Let_def split: sum.splits exn.splits if_splits)
next
  fix e assume "parse_repomix_output read_file et_parse findall = Inl e"
  then show "read_file = Inl e \<or> (\<exists>content. read_file = Inr content) \<and> et_parse = Inl e"
    by (auto simp: parse_repomix_output_def Let_def split: sum.splits exn.splits if_splits)
next
  fix chunks assume "parse_repomix_output read_file et_parse findall = Inr chunks"
  then show "chunks \<noteq> []"
    using fallback_chunks_nonempty
    by (auto simp: parse_repomix_output_def Let_def split: sum.splits exn.splits if_splits)
qed

theorem parse_repomix_output_witness:
  "(parse_repomix_output (Inl (FileNotFoundError ''No such file'')) (Inr []) (\<lambda>content. [])
      :: exn + real chunk list) = Inl (FileNotFoundError ''No such file'') \<and>
   (parse_repomix_output (Inl (OtherException ''Permission denied'')) (Inr []) (\<lambda>content. [])
      :: exn + real chunk list) = Inr [error_chunk (OtherException ''Permission denied'')] \<and>
   (parse_repomix_output (Inr ''x'') (Inl (OtherException ''boom'')) (\<lambda>content. [])
      :: exn + real chunk list) = Inr [error_chunk (OtherException ''boom'')] \<and>
   (parse_repomix_output (Inr ''x'') (Inl (ParseError ''syntax error'')) (\<lambda>content. [])
      :: exn + real chunk list) = Inr (fallback_chunks [] ''x'') \<and>
   (fallback_chunks [] ''x'' :: real chunk list) \<noteq> []"
  using
    parse_repomix_output_outcomes[of "Inl (FileNotFoundError ''No such file'')" "Inr []"
      "\<lambda>content. []", where ?'a = real]
    parse_repomix_output_outcomes[of "Inl (OtherException ''Permission denied'')" "Inr []"
      "\<lambda>content. []", where ?'a = real]
    parse_repomix_output_outcomes[of "Inr ''x''" "Inl (OtherException ''boom'')"
      "\<lambda>content. []", where ?'a = real]
    parse_repomix_output_outcomes[of "Inr ''x''" "Inl (ParseError ''syntax error'')"
      "\<lambda>content. []", where ?'a = real]
  by auto

subsection \<open>Sparse embedding\<close>

lemma all_space_strip_Nil: "list_all isspace s \<Longrightarrow> strip s = []"
  by (auto simp: strip_def list_all_iff dest: set_dropWhileD)

lemma words_from_nonempty:
  "words_from acc s \<noteq> [] \<longleftrightarrow> acc \<noteq> [] \<or> \<not> list_all isspace s"
  by (induction s arbitrary: acc) auto

lemma fold_update_length:
  "length (fold (\<lambda>word embedding. embedding[f word := (1::real)]) ws v) = length v"
  by (induction ws arbitrary: v) simp_all

lemma fold_update_bits:
  "set v \<subseteq> {0, 1} \<Longrightarrow>
   set (fold (\<lambda>word embedding. embedding[f word := (1::real)]) ws v) \<subseteq> {0, 1}"
proof (induction ws arbitrary: v)
  case Nil
  then show ?case by simp
next
  case (Cons w ws)
  have "set (v[f w := 1]) \<subseteq> insert 1 (set v)" by (rule set_update_subset_insert)
  with Cons.prems have "set (v[f w := 1]) \<subseteq> {0, 1}" by auto
  then show ?case using Cons.IH by simp
qed

lemma fold_update_keeps_one:
  "(1::real) \<in> set v \<Longrightarrow> 1 \<in> set (fold (\<lambda>word embedding. embedding[f word := 1]) ws v)"
proof (induction ws arbitrary: v)
  case Nil
  then show ?case by simp
next
  case (Cons w ws)
  from Cons.prems obtain i where i: "i < length v" "v ! i = 1"
    by (auto simp: in_set_conv_nth)
  have "v[f w := 1] ! i = 1" using i by (cases "i = f w") simp_all
  with i have "1 \<in> set (v[f w := 1])" by (metis length_list_update nth_mem)
  then show ?case using Cons.IH by simp
qed

lemma fold_update_sets_one:
  assumes "ws \<noteq> []" and "\<And>w. f w < length v"
  shows "(1::real) \<in> set (fold (\<lambda>word embedding. embedding[f word := 1]) ws v)"
proof -
  from assms(1) obtain w ws' where ws: "ws = w # ws'" by (cases ws) auto
  have "v[f w := 1] ! f w = 1" using assms(2) by simp
  then have "1 \<in> set (v[f w := 1])"
    using assms(2) by (metis length_list_update nth_mem)
  then show ?thesis unfolding ws by (simp add: fold_update_keeps_one)
qed

lemma sum_squares_pos:
  assumes "(1::real) \<in> set v"
  shows "0 < sum_list (map (\<lambda>x. x * x) v)"
  using assms
proof (induction v)
  case Nil
  then show ?case by simp
next
  case (Cons a v)
  have nn: "0 \<le> sum_list (map (\<lambda>x. x * x) v)" by (rule sum_list_nonneg) auto
  show ?case
  proof (cases "a = 1")
    case True
    with nn show ?thesis by simp
  next
    case False
    with Cons have "0 < sum_list (map (\<lambda>x. x * x) v)" by simp
    moreover have "0 \<le> a * a" by simp
    ultimately show ?thesis by (simp add: add_nonneg_pos)
  qed
qed

lemma sum_squares_scaled:
  fixes n :: real
  shows "sum_list (map (\<lambda>x. x * x) (map (\<lambda>x. x / n) v)) = sum_list (map (\<lambda>x. x * x) v) / (n * n)"
  by (induction v) (simp_all add: add_divide_distrib)

lemma normalized_unit:
  assumes "0 < sum_list (map (\<lambda>x. x * x) v)"
  shows "sum_list (map (\<lambda>x. x * x) (map (\<lambda>x. x / linalg_norm v) v)) = 1"
proof -
  let ?S = "sum_list (map (\<lambda>x. x * x) v)"
  have "linalg_norm v * linalg_norm v = ?S"
    using assms by (simp add: linalg_norm_def)
  moreover have "sum_list (map (\<lambda>x. x * x) (map (\<lambda>x. x / linalg_norm v) v)) =
      ?S / (linalg_norm v * linalg_norm v)"
    by (rule sum_squares_scaled)
  ultimately show ?thesis using assms by simp
qed

text \<open>
  The claim C9 as stated fails where the configuration gives another dimension than 384:
  the strategy does not read it. With the sparse model and a configured dimension of 1536
  the vector for the empty text has 384 zeros, and embedding a chunk whose text is a single
  space fails with a dimension mismatch.
\<close>

theorem sparse_dimension_counterexample:
  "(case get_embedding_function (\<lambda>word. 0) (\<lambda>s. s) (\<lambda>api_key text. Inr []) sparse_config None of
      Inl e \<Rightarrow> None
    | Inr f \<Rightarrow> Some (f [], embed_chunks [blank_chunk] f (pinecone_dimension sparse_config))) =
   Some (Inr (replicate 384 0), Inl (DimensionMismatch 1536 384))"
proof -
  have "strip '' '' = []" by code_simp
  then show ?thesis
    by (simp add: get_embedding_function_def sparse_config_def blank_chunk_def embed_chunks_def
        text_of_def create_pinecone_sparse_embedding_function_def)
qed

text \<open>
  C9, amended. The sparse embedding function has no failing branch and always returns a
  vector of length 384, the constant of the code. On an empty or whitespace-only text the
  vector is all zeros. On any other text, for a \<open>lower\<close> that does not turn a text with a
  visible character into whitespace, the squares of the vector sum to 1: it has Euclidean
  norm 1 (in exact arithmetic).
\<close>

theorem sparse_embedding_fixed_dimension:
  "length (create_pinecone_sparse_embedding_function hash lower api_key text) = 384 \<and>
   (list_all isspace text \<longrightarrow>
      create_pinecone_sparse_embedding_function hash lower api_key text = replicate 384 0) \<and>
   ((\<forall>s. \<not> list_all isspace s \<longrightarrow> \<not> list_all isspace (lower s)) \<and> \<not> list_all isspace text \<longrightarrow>
      sum_list (map (\<lambda>x. x * x)
        (create_pinecone_sparse_embedding_function hash lower api_key text)) = 1)"
proof (intro conjI impI)
  show "length (create_pinecone_sparse_embedding_function hash lower api_key text) = 384"
    by (simp add: create_pinecone_sparse_embedding_function_def Let_def fold_update_length)
next
  assume "list_all isspace text"
  then show "create_pinecone_sparse_embedding_function hash lower api_key text = replicate 384 0"
    by (simp add: create_pinecone_sparse_embedding_function_def all_space_strip_Nil)
next
  assume a: "(\<forall>s. \<not> list_all isspace s \<longrightarrow> \<not> list_all isspace (lower s)) \<and>
             \<not> list_all isspace text"
  let ?words = "split_whitespace (lower text)"
  let ?emb = "fold (\<lambda>word embedding. embedding[nat (hash word mod 384) := (1::real)])
                ?words (replicate 384 0)"
  from a have ne: "text \<noteq> []" "strip text \<noteq> []"
    using strip_Nil_all_space[of "text"] by auto
  from a have "\<not> list_all isspace (lower text)" by blast
  then have w: "?words \<noteq> []"
    by (simp add: split_whitespace_def words_from_nonempty)
  have "\<And>word. nat (hash word mod 384) < length (replicate 384 (0::real))"
    by simp
  with w have "1 \<in> set ?emb" by (rule fold_update_sets_one)
  then have pos: "0 < sum_list (map (\<lambda>x. x * x) ?emb)" by (rule sum_squares_pos)
  then have "0 < linalg_norm ?emb" by (simp add: linalg_norm_def)
  with ne have "create_pinecone_sparse_embedding_function hash lower api_key text =
      map (\<lambda>x. x / linalg_norm ?emb) ?emb"
    by (simp add: create_pinecone_sparse_embedding_function_def Let_def)
  with normalized_unit[OF pos] show
    "sum_list (map (\<lambda>x. x * x)
        (create_pinecone_sparse_embedding_function hash lower api_key text)) = 1"
    by simp
qed

theorem sparse_embedding_witness:
  "length (create_pinecone_sparse_embedding_function (\<lambda>word. 0) (\<lambda>s. s) None ''ab cd'') = 384 \<and>
   create_pinecone_sparse_embedding_function (\<lambda>word. 0) (\<lambda>s. s) None '' '' = replicate 384 0 \<and>
   sum_list (map (\<lambda>x. x * x)
     (create_pinecone_sparse_embedding_function (\<lambda>word. 0) (\<lambda>s. s) None ''ab cd'')) = 1"
proof -
  have s: "list_all isspace '' ''" by code_simp
  have n: "\<not> list_all isspace ''ab cd''" by code_simp
  show ?thesis
    using sparse_embedding_fixed_dimension[of "\<lambda>word. 0" "\<lambda>s. s" None "''ab cd''"]
      sparse_embedding_fixed_dimension[of "\<lambda>word. 0" "\<lambda>s. s" None "'' ''"] s n
    by simp
qed

subsection \<open>Ingestion Validator\<close>

lemma find_match_path:
  "find_match path matches = Some r \<Longrightarrow> result_file_path r = path"
  by (induction matches) (auto split: option.splits)

lemma validate_path_path:
  "result_file_path (fst (validate_path query namespace d st path)) = path"
  by (auto simp: validate_path_def Let_def not_found_def find_match_path
      split: prod.splits sum.splits option.splits)

lemma validate_paths_paths:
  "map result_file_path (fst (validate_paths query namespace d st paths)) = paths"
proof (induction paths arbitrary: st)
  case Nil
  show ?case by simp
next
  case (Cons p ps)
  obtain r st1 where r: "validate_path query namespace d st p = (r, st1)"
    by (cases "validate_path query namespace d st p")
  obtain rs st2 where rs: "validate_paths query namespace d st1 ps = (rs, st2)"
    by (cases "validate_paths query namespace d st1 ps")
  from validate_path_path[of query namespace d st p] r have "result_file_path r = p" by simp
  moreover from Cons[of st1] rs have "map result_file_path rs = ps" by simp
  ultimately show ?case using r rs by simp
qed

lemma validate_path_first_query_raises:
  "query st namespace 50 (replicate (nat d) (1 / 10)) = (Inl e, st1) \<Longrightarrow>
   validate_path query namespace d st path = (not_found path (Some e), st1)"
  by (simp add: validate_path_def)

lemma validate_path_second_query_raises:
  "query st namespace 50 (replicate (nat d) (1 / 10)) = (Inr response, st1) \<Longrightarrow>
   find_match path (case response of None \<Rightarrow> [] | Some matches \<Rightarrow> matches) = None \<Longrightarrow>
   query st1 namespace 100 (map (\<lambda>i. if i mod 2 = 0 then 2 / 10 else 3 / 10) [0..<nat d]) =
     (Inl e, st2) \<Longrightarrow>
   validate_path query namespace d st path = (not_found path None, st2)"
  by (simp add: validate_path_def)

lemma rate_threshold:
  fixes f t :: nat
  assumes "0 < t"
  shows "(6 / 10 \<le> real f / real t) \<longleftrightarrow> 3 * t \<le> 5 * f"
proof -
  have "(6 / 10 \<le> real f / real t) \<longleftrightarrow> (6 / 10) * real t \<le> real f"
    using assms by (simp add: pos_le_divide_eq)
  also have "\<dots> \<longleftrightarrow> 3 * real t \<le> 5 * real f" by auto
  also have "\<dots> \<longleftrightarrow> real (3 * t) \<le> real (5 * f)" by simp
  also have "\<dots> \<longleftrightarrow> 3 * t \<le> 5 * f" by (simp only: of_nat_le_iff)
  finally show ?thesis .
qed

lemma validate_paths_run:
  "\<exists>sts. length sts = Suc (length paths) \<and> sts ! 0 = st \<and>
     (\<forall>j<length paths.
        validate_path query namespace d (sts ! j) (paths ! j) =
          (fst (validate_paths query namespace d st paths) ! j, sts ! Suc j)) \<and>
     snd (validate_paths query namespace d st paths) = sts ! length paths"
proof (induction paths arbitrary: st)
  case Nil
  show ?case by (rule exI[of _ "[st]"]) simp
next
  case (Cons p ps)
  obtain r st1 where r: "validate_path query namespace d st p = (r, st1)"
    by (cases "validate_path query namespace d st p")
  obtain rs st2 where rs: "validate_paths query namespace d st1 ps = (rs, st2)"
    by (cases "validate_paths query namespace d st1 ps")
  from Cons[of st1] rs obtain sts where sts: "length sts = Suc (length ps)" "sts ! 0 = st1"
    and steps: "\<And>j. j < length ps \<Longrightarrow>
        validate_path query namespace d (sts ! j) (ps ! j) = (rs ! j, sts ! Suc j)"
    and final: "st2 = sts ! length ps"
    by auto
  show ?case
  proof (intro exI[of _ "st # sts"] conjI allI impI)
    show "length (st # sts) = Suc (length (p # ps))" using sts by simp
    show "(st # sts) ! 0 = st" by simp
    show "snd (validate_paths query namespace d st (p # ps)) = (st # sts) ! length (p # ps)"
      using r rs final by simp
    fix j assume j: "j < length (p # ps)"
    show "validate_path query namespace d ((st # sts) ! j) ((p # ps) ! j) =
        (fst (validate_paths query namespace d st (p # ps)) ! j, (st # sts) ! Suc j)"
    proof (cases j)
      case 0
      with r rs sts show ?thesis by simp
    next
      case (Suc i)
      with j have "i < length ps" by simp
      from steps[OF this] Suc r rs show ?thesis by simp
    qed
  qed
qed

text \<open>
  C7. For a non-empty list of candidate file paths of length \<open>n\<close>, and a sampler that (as
  \<open>random.sample\<close> does) returns the paths at \<open>min 5 n\<close> distinct positions of the list, the
  validator reports one result for each sampled path, in the order sampled: the paths of
  the results are the sample, the \<open>j\<close>-th result is what the loop body gives for the \<open>j\<close>-th
  sampled path from the state of the index that the paths before it left, and
  \<open>total_count\<close> is \<open>min 5 n\<close>. \<open>found_count\<close> is the number of results marked found, and
  \<open>success\<close> holds exactly when \<open>found_count / total_count\<close> is at least \<open>0.6\<close>, that is when
  \<open>3 * total_count \<le> 5 * found_count\<close>. Whatever the index does on a query, the pass
  returns a report: a first query that raises gives for that path a result that is not
  found and carries the error text, and a second query that raises gives a result that is
  not found.
\<close>

theorem validate_file_paths_report:
  assumes "file_paths \<noteq> []"
    and "\<exists>positions. distinct positions \<and> length positions = min 5 (length file_paths) \<and>
           list_all (\<lambda>i. i < length file_paths) positions \<and>
           sample file_paths (min 5 (length file_paths)) = map ((!) file_paths) positions"
  shows "(\<exists>positions. distinct positions \<and> length positions = min 5 (length file_paths) \<and>
            list_all (\<lambda>i. i < length file_paths) positions \<and>
            map result_file_path
              (results (fst (validate_file_paths query sample st namespace file_paths d))) =
            map ((!) file_paths) positions) \<and>
         map result_file_path
             (results (fst (validate_file_paths query sample st namespace file_paths d))) =
           sample file_paths (min 5 (length file_paths)) \<and>
         (\<exists>sts. length sts = Suc (min 5 (length file_paths)) \<and> sts ! 0 = st \<and>
            (\<forall>j<min 5 (length file_paths).
               validate_path query namespace d (sts ! j)
                   (sample file_paths (min 5 (length file_paths)) ! j) =
                 (results (fst (validate_file_paths query sample st namespace file_paths d)) ! j,
                  sts ! Suc j)) \<and>
            snd (validate_file_paths query sample st namespace file_paths d) =
              sts ! min 5 (length file_paths)) \<and>
         total_count (fst (validate_file_paths query sample st namespace file_paths d)) =
           min 5 (length file_paths) \<and>
         found_count (fst (validate_file_paths query sample st namespace file_paths d)) =
           length (filter found
             (results (fst (validate_file_paths query sample st namespace file_paths d)))) \<and>
         (success (fst (validate_file_paths query sample st namespace file_paths d)) \<longleftrightarrow>
            6 / 10 \<le>
              real (found_count (fst (validate_file_paths query sample st namespace file_paths d))) /
              real (total_count (fst (validate_file_paths query sample st namespace file_paths d)))) \<and>
         (success (fst (validate_file_paths query sample st namespace file_paths d)) \<longleftrightarrow>
            3 * total_count (fst (validate_file_paths query sample st namespace file_paths d)) \<le>
            5 * found_count (fst (validate_file_paths query sample st namespace file_paths d))) \<and>
         (\<forall>st0 path e st1.
            query st0 namespace 50 (replicate (nat d) (1 / 10)) = (Inl e, st1) \<longrightarrow>
            validate_path query namespace d st0 path = (not_found path (Some e), st1) \<and>
            \<not> found (not_found path (Some e))) \<and>
         (\<forall>st0 path response st1 e st2.
            query st0 namespace 50 (replicate (nat d) (1 / 10)) = (Inr response, st1) \<and>
            find_match path (case response of None \<Rightarrow> [] | Some matches \<Rightarrow> matches) = None \<and>
            query st1 namespace 100
              (map (\<lambda>i. if i mod 2 = 0 then 2 / 10 else 3 / 10) [0..<nat d]) = (Inl e, st2) \<longrightarrow>
            validate_path query namespace d st0 path = (not_found path None, st2) \<and>
            \<not> found (not_found path None))"
proof -
  let ?k = "min 5 (length file_paths)"
  from assms(2) obtain positions where pos: "distinct positions" "length positions = ?k"
      "list_all (\<lambda>i. i < length file_paths) positions"
    and smp: "sample file_paths ?k = map ((!) file_paths) positions"
    by blast
  obtain rs st1 where rs: "validate_paths query namespace d st (sample file_paths ?k) = (rs, st1)"
    by (cases "validate_paths query namespace d st (sample file_paths ?k)")
  from validate_paths_paths[of query namespace d st "sample file_paths ?k"] rs
  have paths: "map result_file_path rs = sample file_paths ?k" by simp
  then have "length rs = length (sample file_paths ?k)" by (metis length_map)
  with smp pos have len: "length rs = ?k" by simp
  from assms(1) have "0 < length file_paths" by simp
  then have kpos: "0 < ?k" by (simp add: min_def)
  have ne: "rs \<noteq> []"
  proof
    assume "rs = []"
    with len have "?k = 0" by simp
    with kpos show False by linarith
  qed
  have report: "fst (validate_file_paths query sample st namespace file_paths d) =
      \<lparr>success = (real (length (filter found rs)) / real (length rs) \<ge> 6 / 10),
       report_error = None,
       success_rate = real (length (filter found rs)) / real (length rs),
       found_count = length (filter found rs), total_count = length rs, results = rs\<rparr>"
    using assms(1) rs ne by (simp add: validate_file_paths_def Let_def)
  have final: "snd (validate_file_paths query sample st namespace file_paths d) = st1"
    using assms(1) rs by (simp add: validate_file_paths_def Let_def)
  from paths len have slen: "length (sample file_paths ?k) = ?k" by (metis length_map)
  from validate_paths_run[of "sample file_paths ?k" st query namespace d] rs slen
  have run: "\<exists>sts. length sts = Suc ?k \<and> sts ! 0 = st \<and>
      (\<forall>j<?k. validate_path query namespace d (sts ! j) (sample file_paths ?k ! j) =
         (rs ! j, sts ! Suc j)) \<and> st1 = sts ! ?k"
    by simp
  from ne have "0 < length rs" by simp
  note thr = rate_threshold[OF this, of "length (filter found rs)"]
  have c1: "\<exists>positions. distinct positions \<and> length positions = ?k \<and>
      list_all (\<lambda>i. i < length file_paths) positions \<and>
      map result_file_path rs = map ((!) file_paths) positions"
    using pos paths smp by auto
  show ?thesis
    unfolding report final
    using c1 paths run len thr
    by (simp add: validate_path_first_query_raises validate_path_second_query_raises
        not_found_def)
qed

theorem validate_file_paths_witness:
  "total_count (fst (validate_file_paths example_query (\<lambda>xs k. take k xs) 0 ''repo-code''
      example_paths 384)) = 3 \<and>
   map (\<lambda>r. (result_file_path r, found r, error r))
     (results (fst (validate_file_paths example_query (\<lambda>xs k. take k xs) 0 ''repo-code''
        example_paths 384))) =
     [(''a.py'', True, None), (''b.py'', False, Some ''timeout''), (''c.py'', False, None)] \<and>
   found_count (fst (validate_file_paths example_query (\<lambda>xs k. take k xs) 0 ''repo-code''
      example_paths 384)) = 1 \<and>
   \<not> success (fst (validate_file_paths example_query (\<lambda>xs k. take k xs) 0 ''repo-code''
      example_paths 384))"
proof -
  let ?R = "fst (validate_file_paths example_query (\<lambda>xs k. take k xs) 0 ''repo-code''
      example_paths 384)"
  have ne: "example_paths \<noteq> []" by (simp add: example_paths_def)
  have smp: "\<exists>positions. distinct positions \<and>
      length positions = min 5 (length example_paths) \<and>
      list_all (\<lambda>i. i < length example_paths) positions \<and>
      take (min 5 (length example_paths)) example_paths = map ((!) example_paths) positions"
    by (rule exI[of _ "[0, 1, 2]"]) (simp add: example_paths_def)
  note rep = validate_file_paths_report[where sample = "\<lambda>xs k. take k xs"
      and file_paths = example_paths and query = example_query and st = 0
      and namespace = "''repo-code''" and d = 384, OF ne smp]
  have c: "contains ''a.py'' ''a.py''" "\<not> contains ''c.py'' ''a.py''"
    "\<not> contains ''a.py'' ''c.py''"
    by code_simp+
  have rs: "map (\<lambda>r. (result_file_path r, found r, error r)) (results ?R) =
     [(''a.py'', True, None), (''b.py'', False, Some ''timeout''), (''c.py'', False, None)]"
    by (simp add: validate_file_paths_def example_paths_def validate_path_def example_query_def
        not_found_def starts_with_def Let_def)
  have "map found (results ?R) =
      map (\<lambda>p. fst (snd p)) (map (\<lambda>r. (result_file_path r, found r, error r)) (results ?R))"
    by (simp add: comp_def)
  with rs have fs: "map found (results ?R) = [True, False, False]"
    by simp
  have "length (filter found (results ?R)) =
      length (filter (\<lambda>b. b) (map found (results ?R)))"
    by (simp add: filter_map comp_def)
  with fs have f: "length (filter found (results ?R)) = 1"
    by simp
  from rep have t: "total_count ?R = 3" by (simp add: example_paths_def)
  from rep f have fc: "found_count ?R = 1" by simp
  from rep t fc have "\<not> success ?R" by simp
  with t rs fc show ?thesis by simp
qed

end
